theory Spec2Isabelle
  imports Main "HOL-Library.Sublist" "HOL-Library.Word" "HOL-Library.AList"
begin

section \<open>Python strings\<close>

text \<open>
  A Python \<open>str\<close> is a sequence of Unicode code points.  Code points are natural
  numbers here; \<open>str\<close> turns an ASCII literal into its code points.
\<close>

type_synonym pystr = "nat list"

definition str :: "string \<Rightarrow> pystr" where
  "str s = map of_char s"

text \<open>\<open>str.isspace\<close> on one code point: the white-space table of CPython.\<close>

definition isspace :: "nat \<Rightarrow> bool" where
  "isspace c \<longleftrightarrow>
     (9 \<le> c \<and> c \<le> 13) \<or> (28 \<le> c \<and> c \<le> 32) \<or> c = 133 \<or> c = 160 \<or> c = 5760 \<or>
     (8192 \<le> c \<and> c \<le> 8202) \<or> c = 8232 \<or> c = 8233 \<or> c = 8239 \<or> c = 8287 \<or> c = 12288"

text \<open>\<open>s.strip()\<close>: leading and trailing white space removed.\<close>

definition py_strip :: "pystr \<Rightarrow> pystr" where
  "py_strip s = rev (dropWhile isspace (rev (dropWhile isspace s)))"

text \<open>
  \<open>s.replace(old, new)\<close>: the occurrences of \<open>old\<close> are replaced from left to right
  without overlap; an empty \<open>old\<close> matches before every character and at the end.
\<close>

function py_replace :: "'a list \<Rightarrow> 'a list \<Rightarrow> 'a list \<Rightarrow> 'a list" where
  "py_replace old new [] = (if old = [] then new else [])"
| "py_replace old new (c # cs) =
     (if old = [] then new @ c # py_replace old new cs
      else if prefix old (c # cs) then new @ py_replace old new (drop (length old) (c # cs))
      else c # py_replace old new cs)"
  by pat_completeness auto
termination
  by (relation "measure (\<lambda>(old, new, s). length s)") auto

text \<open>
  \<open>s.split(sep)\<close> for a non-empty separator, scanning from the left.  Python raises
  ValueError for an empty separator; that is \<open>None\<close>.
\<close>

function split_on :: "'a list \<Rightarrow> 'a list \<Rightarrow> 'a list list" where
  "split_on sep [] = [[]]"
| "split_on sep (c # cs) =
     (if sep \<noteq> [] \<and> prefix sep (c # cs) then [] # split_on sep (drop (length sep) (c # cs))
      else (case split_on sep cs of
              [] \<Rightarrow> [[c]]
            | f # fs \<Rightarrow> (c # f) # fs))"
  by pat_completeness auto
termination
  by (relation "measure (\<lambda>(sep, s). length s)") auto

definition py_split :: "'a list \<Rightarrow> 'a list \<Rightarrow> 'a list list option" where
  "py_split sep s = (if sep = [] then None else Some (split_on sep s))"

text \<open>\<open>sub in s\<close>.\<close>

fun py_contains :: "'a list \<Rightarrow> 'a list \<Rightarrow> bool" where
  "py_contains sub [] = (sub = [])"
| "py_contains sub (c # cs) = (prefix sub (c # cs) \<or> py_contains sub cs)"

text \<open>\<open>s.startswith(p)\<close>.\<close>

definition startswith :: "'a list \<Rightarrow> 'a list \<Rightarrow> bool" where
  "startswith s p = prefix p s"

section \<open>The text chunker: \<open>ChunkProcessorWorker.__init__\<close>\<close>

text \<open>
  \<^verbatim>\<open>processed_text = text_to_speak.replace('\n', ' ').replace('\r', '')\<close>
\<close>

definition processed_text :: "pystr \<Rightarrow> pystr" where
  "processed_text text_to_speak = py_replace [13] [] (py_replace [10] [32] text_to_speak)"

text \<open>
  The loop over \<open>enumerate(potential_chunks)\<close>: \<open>n\<close> is \<open>len(potential_chunks)\<close>,
  \<open>i\<close> the running index.
\<close>

fun collect_chunks :: "nat \<Rightarrow> nat \<Rightarrow> pystr list \<Rightarrow> pystr list" where
  "collect_chunks n i [] = []"
| "collect_chunks n i (chunk # rest) =
     (let trimmed_chunk = py_strip chunk in
      if trimmed_chunk \<noteq> []
      then (if int i < int n - 1 then trimmed_chunk @ str ''.'' else trimmed_chunk)
             # collect_chunks n (Suc i) rest
      else collect_chunks n (Suc i) rest)"

definition text_chunks :: "pystr \<Rightarrow> pystr list" where
  "text_chunks text_to_speak =
     (case py_split (str ''. '') (processed_text text_to_speak) of
        None \<Rightarrow> []
      | Some potential_chunks \<Rightarrow> collect_chunks (length potential_chunks) 0 potential_chunks)"

section \<open>Input validation: \<open>PiperAPIGUIWindow.start_synthesis\<close>\<close>

datatype start_result =
    AlreadyRunning
  | InvalidApiUrl
  | NoTextLoaded
  | NoOutputPath
  | WorkerStarted "pystr list"

text \<open>
  \<open>running\<close> is \<open>worker_thread is not None and worker_thread.isRunning()\<close>;
  \<open>WorkerStarted\<close> carries the \<open>text_chunks\<close> of the worker that is created and started.
\<close>

definition start_synthesis :: "bool \<Rightarrow> pystr \<Rightarrow> pystr \<Rightarrow> pystr \<Rightarrow> start_result" where
  "start_synthesis running text_to_speak api_url_entry output_filepath =
     (if running then AlreadyRunning
      else if \<not> startswith (py_strip api_url_entry) (str ''http'') then InvalidApiUrl
      else if py_strip text_to_speak = [] then NoTextLoaded
      else if py_strip output_filepath = [] then NoOutputPath
      else WorkerStarted (text_chunks text_to_speak))"

text \<open>
  The spec's reading of the normalisation, for comparison with \<open>processed_text\<close>: every
  line break (CR LF, a lone LF, a lone CR) becomes exactly one space.
\<close>

fun spec_line_breaks_to_spaces :: "pystr \<Rightarrow> pystr" where
  "spec_line_breaks_to_spaces [] = []"
| "spec_line_breaks_to_spaces (c # cs) =
     (if c = 13 \<and> cs \<noteq> [] \<and> hd cs = 10 then 32 # spec_line_breaks_to_spaces (tl cs)
      else if c = 13 \<or> c = 10 then 32 # spec_line_breaks_to_spaces cs
      else c # spec_line_breaks_to_spaces cs)"

section \<open>Files, log messages and signals\<close>

text \<open>
  \<open>TempPath chunk_num\<close> is the temporary file
  \<^verbatim>\<open>f"{self.temp_base_name}_{chunk_num:04d}.wav"\<close> of a chunk, \<open>FinalOutputPath\<close> is
  \<open>self.final_output_filepath\<close>.  The file system maps a path to the bytes stored there.
\<close>

datatype path = TempPath nat | FinalOutputPath

type_synonym byte = "8 word"

type_synonym filesystem = "path \<rightharpoonup> byte list"

datatype severity = INFO | WARNING | ERROR | CRITICAL

text \<open>
  The texts given to \<open>log_message.emit\<close>, named after what they say: those of \<open>run\<close>,
  those of \<open>_synthesize_chunk\<close> (each about one chunk number), and those of
  \<open>_combine_wav_files\<close> and \<open>_cleanup_temp_files\<close>.
\<close>

datatype run_msg =
    StartingSynthesis nat
  | StopBeforeSubmittingAll
  | StopCancellingPending
  | ChunkFailedAborting nat
  | ChunkWasCancelled nat
  | ChunkGeneratedException nat
  | SynthesisAborted
  | AllChunksSynthesized
  | CreatedOutputDirectory
  | ErrorCreatingOutputDirectory
  | SuccessfullyCombined
  | ErrorCombining

datatype chunk_msg =
    SkippingChunk
  | StartingRequest
  | IgnoringResponse
  | StoppingDownload
  | ErrorRemovingPartialFile
  | DownloadStopped
  | ChunkSaved
  | EmptyOrMissingFile
  | ErrorSavingAudio
  | ApiError nat
  | ApiCallTimedOut
  | NetworkErrorIgnored
  | NetworkError
  | UnexpectedErrorIgnored
  | UnexpectedError

datatype file_msg =
    CombiningValidChunks nat
  | ParametersMismatch path
  | CleaningUp nat
  | ErrorDeleting path
  | DeletedCount nat

datatype msg = RunMsg run_msg | ChunkMsg nat chunk_msg | FileMsg file_msg

datatype signal =
    log_message msg severity
  | synthesis_started
  | synthesis_finished
  | progress_update nat nat
  | final_output_ready
  | critical_error

text \<open>
  What the operating system may refuse: \<open>open(p, 'wb')\<close> and \<open>os.remove(p)\<close> raising
  OSError, and the creation of the output directory.  \<open>makedirs_needed\<close> is
  \<open>output_dir and not os.path.exists(output_dir)\<close>.
\<close>

record os_env =
  open_fails :: "path \<Rightarrow> bool"
  remove_fails :: "path \<Rightarrow> bool"
  makedirs_needed :: bool
  makedirs_fails :: bool

text \<open>\<open>os.path.exists(f) and os.path.getsize(f) > 0\<close>\<close>

definition exists_nonempty :: "filesystem \<Rightarrow> path \<Rightarrow> bool" where
  "exists_nonempty fs f = (case fs f of None \<Rightarrow> False | Some b \<Rightarrow> b \<noteq> [])"

section \<open>The stitcher: \<open>_combine_wav_files\<close>\<close>

text \<open>
  The \<open>wave\<close> module is Python's, not the repository's; it is a parameter.  \<open>wave_read b\<close>
  is what \<open>wave.open(f, 'rb')\<close> gives on a file holding the bytes \<open>b\<close>: the result of
  \<open>getparams()\<close> and of \<open>readframes(getnframes())\<close>, or \<open>None\<close> when it raises.
  \<open>wave_file p d\<close> is the file left by \<open>wave.open(f, 'wb')\<close>, \<open>setparams(p)\<close>, writing
  the frame data \<open>d\<close>, and \<open>close()\<close>.
\<close>

record wav_params =
  nchannels :: nat
  sampwidth :: nat
  framerate :: nat
  nframes :: nat
  comptype :: string
  compname :: string

record wav =
  getparams :: wav_params
  frames :: "byte list"

record wave_module =
  wave_read :: "byte list \<Rightarrow> wav option"
  wave_file :: "wav_params \<Rightarrow> byte list \<Rightarrow> byte list"

text \<open>The audio format of the data model: channels, sample rate, bit depth.\<close>

definition audio_format :: "wav_params \<Rightarrow> nat \<times> nat \<times> nat" where
  "audio_format p = (nchannels p, framerate p, sampwidth p)"

datatype py_exception = ValueError | WaveError | OSError | FileNotFoundError

definition valid_input_files :: "filesystem \<Rightarrow> path list \<Rightarrow> path list" where
  "valid_input_files fs input_files = [f \<leftarrow> input_files. exists_nonempty fs f]"

text \<open>
  The loop \<open>for filename in valid_input_files\<close>: \<open>written\<close> is the frame data given to
  \<open>outfile.writeframes\<close> so far.  An exception ends the loop and keeps what was written.
\<close>

fun write_all_frames ::
  "wave_module \<Rightarrow> filesystem \<Rightarrow> wav_params \<Rightarrow> path list \<Rightarrow> byte list \<Rightarrow> signal list \<Rightarrow>
   py_exception option \<times> byte list \<times> signal list" where
  "write_all_frames wave fs params [] written log = (None, written, log)"
| "write_all_frames wave fs params (filename # rest) written log =
     (case fs filename of
        None \<Rightarrow> (Some FileNotFoundError, written, log)
      | Some b \<Rightarrow>
          (case wave_read wave b of
             None \<Rightarrow> (Some WaveError, written, log)
           | Some infile \<Rightarrow>
               write_all_frames wave fs params rest (written @ frames infile)
                 (if getparams infile \<noteq> params
                  then log @ [log_message (FileMsg (ParametersMismatch filename)) WARNING]
                  else log)))"

text \<open>
  \<open>_combine_wav_files(input_files, output_file)\<close>: the exception raised, if any, the file
  system afterwards and the messages logged.  Opening the output file for writing
  empties it (an input file of the same path is read as empty from then on);
  \<open>outfile.close()\<close> in the \<open>finally\<close> block leaves the WAV file of the frames written,
  also when the loop raised.
\<close>

definition combine_wav_files ::
  "wave_module \<Rightarrow> os_env \<Rightarrow> path list \<Rightarrow> path \<Rightarrow> filesystem \<Rightarrow>
   py_exception option \<times> filesystem \<times> signal list" where
  "combine_wav_files wave os input_files output_file fs =
     (if input_files = [] then (Some ValueError, fs, [])
      else
        (case valid_input_files fs input_files of
           [] \<Rightarrow> (Some ValueError, fs, [])
         | first # others \<Rightarrow>
             let valid = first # others;
                 log = [log_message (FileMsg (CombiningValidChunks (length valid))) INFO]
             in
             (case fs first of
                None \<Rightarrow> (Some FileNotFoundError, fs, log)
              | Some b \<Rightarrow>
                  (case wave_read wave b of
                     None \<Rightarrow> (Some WaveError, fs, log)
                   | Some infile \<Rightarrow>
                       let params = getparams infile in
                       if open_fails os output_file then (Some OSError, fs, log)
                       else
                         let fs1 = fs(output_file \<mapsto> []);
                             (raised, written, log') =
                                write_all_frames wave fs1 params valid [] log
                         in (raised, fs1(output_file \<mapsto> wave_file wave params written),
                             log')))))"

section \<open>The janitor: \<open>_cleanup_temp_files\<close>\<close>

text \<open>
  The loop over \<open>files_to_delete\<close>; an OSError of \<open>os.remove\<close> is logged and the loop goes
  on with the next file.
\<close>

fun remove_each ::
  "os_env \<Rightarrow> path list \<Rightarrow> filesystem \<Rightarrow> signal list \<Rightarrow> nat \<Rightarrow> filesystem \<times> signal list \<times> nat" where
  "remove_each os [] fs log deleted_count = (fs, log, deleted_count)"
| "remove_each os (temp_file # rest) fs log deleted_count =
     (if fs temp_file \<noteq> None
      then (if remove_fails os temp_file
            then remove_each os rest fs
                   (log @ [log_message (FileMsg (ErrorDeleting temp_file)) ERROR]) deleted_count
            else remove_each os rest (fs(temp_file := None)) log (Suc deleted_count))
      else remove_each os rest fs log deleted_count)"

definition cleanup_temp_files ::
  "os_env \<Rightarrow> path list \<Rightarrow> filesystem \<Rightarrow> filesystem \<times> signal list" where
  "cleanup_temp_files os files_to_delete fs =
     (if files_to_delete = [] then (fs, [])
      else
        let (fs', log, deleted_count) =
              remove_each os files_to_delete fs
                [log_message (FileMsg (CleaningUp (length files_to_delete))) INFO] 0
        in (fs', log @ [log_message (FileMsg (DeletedCount deleted_count)) INFO]))"

section \<open>The fetcher: \<open>_synthesize_chunk\<close>\<close>

text \<open>
  What one call meets.  \<open>post\<close> is the outcome of \<open>requests.post\<close>: the exception it
  raises, or the status code and the blocks that \<open>iter_content\<close> yields.
  \<open>recv_error_at = Some i\<close>: fetching block \<open>i\<close> from the stream raises;
  \<open>write_error_at = Some i\<close>: \<open>f.write\<close> of block \<open>i\<close> raises.

  The shared flag \<open>_stop_requested\<close> only goes from False to True during a run.  The call
  reads it at successive moments: 0 on entry, 1 when \<open>requests.post\<close> has returned or
  raised, \<open>2 + i\<close> at block \<open>i\<close> of the download and after the download loop.
  \<open>stop_time = Some k\<close> says that the flag is set from moment \<open>k\<close> on.
\<close>

datatype post_result =
    Timeout
  | RequestException
  | OtherException
  | Response nat "byte list list"

record fetch_env =
  stop_time :: "nat option"
  post :: post_result
  recv_error_at :: "nat option"
  write_error_at :: "nat option"

definition stop_visible :: "fetch_env \<Rightarrow> nat \<Rightarrow> bool" where
  "stop_visible e t = (case stop_time e of None \<Rightarrow> False | Some k \<Rightarrow> k \<le> t)"

datatype download_status = Completed | Stopped | IOFailed

text \<open>
  The loop \<open>for i, audio_chunk in enumerate(response.iter_content(...))\<close>: how it ended,
  the bytes written to the file, the index reached and the messages.
\<close>

fun download ::
  "fetch_env \<Rightarrow> nat \<Rightarrow> nat \<Rightarrow> byte list list \<Rightarrow> byte list \<Rightarrow> signal list \<Rightarrow>
   download_status \<times> byte list \<times> nat \<times> signal list" where
  "download e chunk_num i [] written log =
     (if recv_error_at e = Some i then IOFailed else Completed, written, i, log)"
| "download e chunk_num i (audio_chunk # rest) written log =
     (if recv_error_at e = Some i then (IOFailed, written, i, log)
      else if i mod 10 = 0 \<and> stop_visible e (2 + i)
      then (Stopped, written, i, log @ [log_message (ChunkMsg chunk_num StoppingDownload) WARNING])
      else if write_error_at e = Some i then (IOFailed, written, i, log)
      else download e chunk_num (Suc i) rest (written @ audio_chunk) log)"

text \<open>The branch \<open>response.status_code == 200\<close>, from \<open>open(temp_output_path, 'wb')\<close> on.\<close>

definition save_audio ::
  "os_env \<Rightarrow> fetch_env \<Rightarrow> nat \<Rightarrow> path \<Rightarrow> byte list list \<Rightarrow> filesystem \<Rightarrow> signal list \<Rightarrow>
   path option \<times> filesystem \<times> signal list" where
  "save_audio os e chunk_num temp_output_path blocks fs log =
     (if open_fails os temp_output_path
      then (None, fs, log @ [log_message (ChunkMsg chunk_num ErrorSavingAudio) ERROR])
      else
        let (status, written, i, log1) = download e chunk_num 0 blocks [] log;
            fs1 = fs(temp_output_path \<mapsto> written)
        in if status = IOFailed
           then (None, fs1, log1 @ [log_message (ChunkMsg chunk_num ErrorSavingAudio) ERROR])
           else if stop_visible e (2 + i)
           then (if remove_fails os temp_output_path
                 then (None, fs1,
                       log1 @ [log_message (ChunkMsg chunk_num ErrorRemovingPartialFile) ERROR,
                               log_message (ChunkMsg chunk_num DownloadStopped) WARNING])
                 else (None, fs1(temp_output_path := None),
                       log1 @ [log_message (ChunkMsg chunk_num DownloadStopped) WARNING]))
           else if written \<noteq> []
           then (Some temp_output_path, fs1,
                 log1 @ [log_message (ChunkMsg chunk_num ChunkSaved) INFO])
           else (if remove_fails os temp_output_path
                 then (None, fs1,
                       log1 @ [log_message (ChunkMsg chunk_num EmptyOrMissingFile) ERROR,
                               log_message (ChunkMsg chunk_num ErrorSavingAudio) ERROR])
                 else (None, fs1(temp_output_path := None),
                       log1 @ [log_message (ChunkMsg chunk_num EmptyOrMissingFile) ERROR])))"

text \<open>
  \<open>_synthesize_chunk(chunk_num, chunk_text, temp_output_path)\<close>: the value returned
  (\<open>None\<close> is Python's \<open>None\<close>), the file system afterwards and the messages logged.
\<close>

definition synthesize_chunk ::
  "os_env \<Rightarrow> fetch_env \<Rightarrow> nat \<Rightarrow> path \<Rightarrow> filesystem \<Rightarrow> path option \<times> filesystem \<times> signal list" where
  "synthesize_chunk os e chunk_num temp_output_path fs =
     (if stop_visible e 0
      then (None, fs, [log_message (ChunkMsg chunk_num SkippingChunk) WARNING])
      else
        let log = [log_message (ChunkMsg chunk_num StartingRequest) INFO] in
        (case post e of
           Response status_code blocks \<Rightarrow>
             if stop_visible e 1
             then (None, fs, log @ [log_message (ChunkMsg chunk_num IgnoringResponse) WARNING])
             else if status_code = 200
             then save_audio os e chunk_num temp_output_path blocks fs log
             else (None, fs, log @ [log_message (ChunkMsg chunk_num (ApiError status_code)) ERROR])
         | Timeout \<Rightarrow>
             (None, fs, log @ [log_message (ChunkMsg chunk_num ApiCallTimedOut) ERROR])
         | RequestException \<Rightarrow>
             if stop_visible e 1
             then (None, fs, log @ [log_message (ChunkMsg chunk_num NetworkErrorIgnored) WARNING])
             else (None, fs, log @ [log_message (ChunkMsg chunk_num NetworkError) ERROR])
         | OtherException \<Rightarrow>
             if stop_visible e 1
             then (None, fs, log @ [log_message (ChunkMsg chunk_num UnexpectedErrorIgnored) WARNING])
             else (None, fs, log @ [log_message (ChunkMsg chunk_num UnexpectedError) ERROR])))"

section \<open>The coordinator: \<open>ChunkProcessorWorker.run\<close>\<close>

text \<open>
  What a submitted call does in the pool: it runs \<open>_synthesize_chunk\<close> in some
  environment, it is cancelled before it starts, or it raises.
\<close>

datatype task = Runs fetch_env | CancelledBeforeStart | Raises

text \<open>What \<open>future.result()\<close> gives: the value returned, or the exception raised.\<close>

datatype future_result = Returned "path option" | CancelledError | RaisedException

text \<open>
  The places where \<open>run\<close> reads \<open>_stop_requested\<close>: before submitting chunk \<open>i\<close>, at the
  top of iteration \<open>j\<close> of the result loop, after a \<open>None\<close> result and in the exception
  handler of iteration \<open>j\<close>, and in the check after the pool has shut down.
\<close>

datatype read_point =
    BeforeSubmit nat
  | LoopTop nat
  | AfterResult nat
  | InExcept nat
  | FinalCheck

text \<open>
  What a run meets.  \<open>user_stop p\<close>: the slot \<open>stop()\<close> has set the flag when \<open>run\<close> reads
  it at \<open>p\<close>.  \<open>as_completed\<close>: the chunk indices in the order in which their futures
  complete.  \<open>task i\<close>: what the call for chunk index \<open>i\<close> does.
\<close>

record run_env =
  user_stop :: "read_point \<Rightarrow> bool"
  as_completed :: "nat list"
  task :: "nat \<Rightarrow> task"
  opsys :: os_env

text \<open>
  The variables of \<open>run\<close>.  \<open>results\<close> is the dictionary, in insertion order;
  \<open>emitted\<close> are the signals emitted by \<open>run\<close> so far.
\<close>

record worker =
  results :: "(nat \<times> path) list"
  stop_requested :: bool
  chunks_processed :: nat
  emitted :: "signal list"

definition read_stop :: "run_env \<Rightarrow> read_point \<Rightarrow> worker \<Rightarrow> worker" where
  "read_stop env p w = w\<lparr>stop_requested := stop_requested w \<or> user_stop env p\<rparr>"

definition emit :: "signal list \<Rightarrow> worker \<Rightarrow> worker" where
  "emit sigs w = w\<lparr>emitted := emitted w @ sigs\<rparr>"

text \<open>
  The loop \<open>for i, chunk in enumerate(self.text_chunks)\<close> that submits the calls;
  \<open>remaining\<close> counts the chunks not yet looked at.  It returns how many were submitted.
\<close>

fun submit_loop :: "run_env \<Rightarrow> nat \<Rightarrow> nat \<Rightarrow> worker \<Rightarrow> nat \<times> worker" where
  "submit_loop env i 0 w = (i, w)"
| "submit_loop env i (Suc remaining) w =
     (let w1 = read_stop env (BeforeSubmit i) w in
      if stop_requested w1
      then (i, emit [log_message (RunMsg StopBeforeSubmittingAll) WARNING] w1)
      else submit_loop env (Suc i) remaining w1)"

text \<open>
  The calls of the pool, in the order of completion.  The call for chunk index \<open>i\<close> has
  chunk number \<open>i + 1\<close> and writes to the temporary file of that number.
\<close>

fun run_task :: "os_env \<Rightarrow> task \<Rightarrow> nat \<Rightarrow> filesystem \<Rightarrow> future_result \<times> filesystem" where
  "run_task os (Runs e) i fs =
     (let (r, fs', log) = synthesize_chunk os e (Suc i) (TempPath (Suc i)) fs in (Returned r, fs'))"
| "run_task os CancelledBeforeStart i fs = (CancelledError, fs)"
| "run_task os Raises i fs = (RaisedException, fs)"

fun run_tasks ::
  "run_env \<Rightarrow> nat list \<Rightarrow> filesystem \<Rightarrow> (nat \<times> future_result) list \<times> filesystem" where
  "run_tasks env [] fs = ([], fs)"
| "run_tasks env (i # rest) fs =
     (let (r, fs1) = run_task (opsys env) (task env i) i fs;
          (rs, fs2) = run_tasks env rest fs1
      in ((i, r) # rs, fs2))"

text \<open>
  The loop \<open>for future in concurrent.futures.as_completed(future_to_chunk)\<close>; \<open>j\<close> counts
  the iterations.  A \<open>break\<close> is a return without a recursive call.
\<close>

fun drain :: "run_env \<Rightarrow> nat \<Rightarrow> nat \<Rightarrow> (nat \<times> future_result) list \<Rightarrow> worker \<Rightarrow> worker" where
  "drain env total_chunks j [] w = w"
| "drain env total_chunks j ((chunk_index, result) # rest) w =
     (let w1 = read_stop env (LoopTop j) w in
      if stop_requested w1
      then drain env total_chunks (Suc j) rest
             (emit [log_message (RunMsg StopCancellingPending) WARNING] w1)
      else
        (case result of
           Returned (Some temp_file_path) \<Rightarrow>
             drain env total_chunks (Suc j) rest
               (w1\<lparr>results := AList.update chunk_index temp_file_path (results w1),
                    chunks_processed := Suc (chunks_processed w1),
                    emitted := emitted w1 @
                      [progress_update (Suc (chunks_processed w1)) (total_chunks + 1)]\<rparr>)
         | Returned None \<Rightarrow>
             let w2 = read_stop env (AfterResult j) w1 in
             if \<not> stop_requested w2
             then (emit [log_message (RunMsg (ChunkFailedAborting (Suc chunk_index))) ERROR,
                         critical_error] w2)\<lparr>stop_requested := True\<rparr>
             else drain env total_chunks (Suc j) rest w2
         | CancelledError \<Rightarrow>
             drain env total_chunks (Suc j) rest
               (emit [log_message (RunMsg (ChunkWasCancelled (Suc chunk_index))) WARNING] w1)
         | RaisedException \<Rightarrow>
             let w2 = read_stop env (InExcept j)
                        (emit [log_message (RunMsg (ChunkGeneratedException (Suc chunk_index)))
                                 ERROR] w1)
             in if \<not> stop_requested w2
                then (emit [critical_error] w2)\<lparr>stop_requested := True\<rparr>
                else w2))"

text \<open>What a run leaves: the file system, the signals of \<open>run\<close>, and the flag.\<close>

record run_result =
  final_files :: filesystem
  signals :: "signal list"
  stop_flag :: bool

text \<open>\<open>[results[i] for i in sorted(results.keys())]\<close>\<close>

definition ordered_temp_files :: "(nat \<times> path) list \<Rightarrow> path list" where
  "ordered_temp_files res = List.map_filter (map_of res) (sort (map fst res))"

text \<open>The part of \<open>run\<close> after the pool has shut down, from \<open>Post-Processing\<close> on.\<close>

definition post_processing ::
  "wave_module \<Rightarrow> run_env \<Rightarrow> nat \<Rightarrow> worker \<Rightarrow> filesystem \<Rightarrow> run_result" where
  "post_processing wave env total_chunks w fs =
     (let created_temp_files = map snd (results w);
          w1 = read_stop env FinalCheck w
      in
      if stop_requested w1 \<or> length (results w1) < total_chunks
      then
        let (fs', log) = cleanup_temp_files (opsys env) created_temp_files fs in
        \<lparr>final_files = fs',
         signals = emitted w1 @ [log_message (RunMsg SynthesisAborted) WARNING] @ log @
                   [synthesis_finished],
         stop_flag = stop_requested w1\<rparr>
      else
        let temp_files = ordered_temp_files (results w1);
            sig1 = emitted w1 @
                   [progress_update (total_chunks + 1) (total_chunks + 1),
                    log_message (RunMsg AllChunksSynthesized) INFO]
        in
        if makedirs_needed (opsys env) \<and> makedirs_fails (opsys env)
        then
          let (fs', log) = cleanup_temp_files (opsys env) temp_files fs in
          \<lparr>final_files = fs',
           signals = sig1 @ [log_message (RunMsg ErrorCreatingOutputDirectory) CRITICAL,
                             critical_error] @ log @ [synthesis_finished],
           stop_flag = stop_requested w1\<rparr>
        else
          let sig2 = sig1 @ (if makedirs_needed (opsys env)
                             then [log_message (RunMsg CreatedOutputDirectory) INFO] else []);
              (raised, fs1, combine_log) =
                 combine_wav_files wave (opsys env) temp_files FinalOutputPath fs;
              sig3 = sig2 @ combine_log @
                     (case raised of
                        None \<Rightarrow> [log_message (RunMsg SuccessfullyCombined) INFO,
                                 final_output_ready]
                      | Some exc \<Rightarrow> [log_message (RunMsg ErrorCombining) CRITICAL,
                                     critical_error]);
              (fs2, log) = cleanup_temp_files (opsys env) temp_files fs1
          in \<lparr>final_files = fs2, signals = sig3 @ log @ [synthesis_finished],
              stop_flag = stop_requested w1\<rparr>)"

text \<open>
  \<open>run\<close>, on the file system \<open>fs\<close>.  Only the futures that were submitted complete.  When
  the \<open>with\<close> block of the pool is left, every call that started has finished, so the
  files that the calls wrote are all there at \<open>Post-Processing\<close>.
\<close>

definition run :: "wave_module \<Rightarrow> run_env \<Rightarrow> pystr list \<Rightarrow> filesystem \<Rightarrow> run_result" where
  "run wave env chunks fs =
     (let total_chunks = length chunks;
          w0 = \<lparr>results = [], stop_requested = False, chunks_processed = 0,
                emitted = [synthesis_started,
                           log_message (RunMsg (StartingSynthesis total_chunks)) INFO]\<rparr>;
          (submitted, w1) = submit_loop env 0 total_chunks w0;
          (completions, fs1) =
             run_tasks env [i \<leftarrow> as_completed env. i < submitted] fs;
          w2 = drain env total_chunks 0 completions w1
      in post_processing wave env total_chunks w2 fs1)"

section \<open>The server: \<open>synthesize\<close>\<close>

text \<open>
  A parsed JSON value, as \<open>request.get_json()\<close> returns it; an object keeps its members in
  the order of the document.  Numbers are integers here; a float is false exactly when
  it is zero, as an integer is.
\<close>

datatype json =
    JNull
  | JBool bool
  | JNumber int
  | JString pystr
  | JArray "json list"
  | JObject "(pystr \<times> json) list"

text \<open>
  A request as the handler sees it.  \<open>is_json\<close> is Flask's \<open>request.is_json\<close>: the
  Content-Type header names JSON.  \<open>json_body\<close> is the body parsed as JSON, \<open>None\<close> when
  the body is not JSON; \<open>request.get_json()\<close> raises BadRequest then.
\<close>

record request =
  is_json :: bool
  json_body :: "json option"

text \<open>Python's truth value of a parsed JSON value: what \<open>not text\<close> negates.\<close>

fun truthy :: "json \<Rightarrow> bool" where
  "truthy JNull = False"
| "truthy (JBool b) = b"
| "truthy (JNumber n) = (n \<noteq> 0)"
| "truthy (JString s) = (s \<noteq> [])"
| "truthy (JArray xs) = (xs \<noteq> [])"
| "truthy (JObject kvs) = (kvs \<noteq> [])"

text \<open>
  \<open>data.get('text')\<close> on a dictionary: the value of the last member of that name, Python's
  \<open>None\<close> (here \<open>JNull\<close>) when there is none.
\<close>

definition dict_get :: "(pystr \<times> json) list \<Rightarrow> pystr \<Rightarrow> json" where
  "dict_get kvs k = (case map_of (rev kvs) k of None \<Rightarrow> JNull | Some v \<Rightarrow> v)"

text \<open>
  The Piper subprocess.  \<open>popen\<close>: the exception that \<open>subprocess.Popen\<close> raises, if any.
  \<open>communicate\<close>: return code, standard output and standard error for a text.
\<close>

datatype popen_error = ExecutableNotFound | OtherPopenError

record piper_env =
  popen :: "popen_error option"
  communicate :: "pystr \<Rightarrow> int \<times> byte list \<times> byte list"

datatype error_text =
    RequestMustBeJson
  | MissingText
  | PiperFailed "byte list"
  | NoAudioData
  | ExecutableMissing
  | UnexpectedServerError

datatype response_body = JsonError error_text | WavAudio "byte list"

text \<open>Exceptions that leave the handler; Flask turns them into its own error pages.\<close>

datatype handler_exception = BadRequest | AttributeError | TypeError

datatype outcome = HttpResponse nat response_body | Unhandled handler_exception

record reply =
  outcome :: outcome
  popen_calls :: nat

text \<open>
  The handler from \<open>Run Piper\<close> on, for a text that is true.  \<open>text[:50]\<close> raises
  TypeError on a number, a boolean and a dictionary; \<open>text.encode\<close> raises
  AttributeError on a list, inside the \<open>try\<close> block and after \<open>Popen\<close>.
\<close>

definition run_piper :: "piper_env \<Rightarrow> json \<Rightarrow> reply" where
  "run_piper piper text =
     (case text of
        JString s \<Rightarrow>
          (case popen piper of
             Some ExecutableNotFound \<Rightarrow>
               \<lparr>outcome = HttpResponse 500 (JsonError ExecutableMissing), popen_calls = 1\<rparr>
           | Some OtherPopenError \<Rightarrow>
               \<lparr>outcome = HttpResponse 500 (JsonError UnexpectedServerError), popen_calls = 1\<rparr>
           | None \<Rightarrow>
               (case communicate piper s of (returncode, stdout_data, stderr_data) \<Rightarrow>
                  if returncode \<noteq> 0
                  then \<lparr>outcome = HttpResponse 500 (JsonError (PiperFailed stderr_data)),
                        popen_calls = 1\<rparr>
                  else if stdout_data = []
                  then \<lparr>outcome = HttpResponse 500 (JsonError NoAudioData), popen_calls = 1\<rparr>
                  else \<lparr>outcome = HttpResponse 200 (WavAudio stdout_data), popen_calls = 1\<rparr>))
      | JArray xs \<Rightarrow>
          (case popen piper of
             Some ExecutableNotFound \<Rightarrow>
               \<lparr>outcome = HttpResponse 500 (JsonError ExecutableMissing), popen_calls = 1\<rparr>
           | _ \<Rightarrow>
               \<lparr>outcome = HttpResponse 500 (JsonError UnexpectedServerError), popen_calls = 1\<rparr>)
      | _ \<Rightarrow> \<lparr>outcome = Unhandled TypeError, popen_calls = 0\<rparr>)"

text \<open>The handler of \<open>POST /synthesize\<close>.\<close>

definition synthesize :: "piper_env \<Rightarrow> request \<Rightarrow> reply" where
  "synthesize piper req =
     (if \<not> is_json req
      then \<lparr>outcome = HttpResponse 400 (JsonError RequestMustBeJson), popen_calls = 0\<rparr>
      else
        (case json_body req of
           None \<Rightarrow> \<lparr>outcome = Unhandled BadRequest, popen_calls = 0\<rparr>
         | Some data \<Rightarrow>
             (case data of
                JObject kvs \<Rightarrow>
                  let text = dict_get kvs (str ''text'') in
                  if \<not> truthy text
                  then \<lparr>outcome = HttpResponse 400 (JsonError MissingText), popen_calls = 0\<rparr>
                  else run_piper piper text
              | _ \<Rightarrow> \<lparr>outcome = Unhandled AttributeError, popen_calls = 0\<rparr>)))"

section \<open>Notions used in the statements, and example environments\<close>

text \<open>What the future of chunk index \<open>i\<close> gives, whatever the other calls do.\<close>

definition fetch_result :: "run_env \<Rightarrow> nat \<Rightarrow> future_result" where
  "fetch_result env i = fst (run_task (opsys env) (task env i) i Map.empty)"

text \<open>The body of a response: the audio segment of the chunk.\<close>

definition response_bytes :: "fetch_env \<Rightarrow> byte list" where
  "response_bytes e = (case post e of Response status_code blocks \<Rightarrow> concat blocks | _ \<Rightarrow> [])"

text \<open>An operating system that refuses nothing, with the output directory in place.\<close>

definition no_failures :: os_env where
  "no_failures = \<lparr>open_fails = (\<lambda>p. False), remove_fails = (\<lambda>p. False),
                  makedirs_needed = False, makedirs_fails = False\<rparr>"

text \<open>A call that gets status 200 and the given blocks, and one that gets an error status.\<close>

definition fetch_ok :: "byte list list \<Rightarrow> fetch_env" where
  "fetch_ok blocks = \<lparr>stop_time = None, post = Response 200 blocks,
                      recv_error_at = None, write_error_at = None\<rparr>"

definition fetch_status :: "nat \<Rightarrow> fetch_env" where
  "fetch_status status_code = \<lparr>stop_time = None, post = Response status_code [],
                              recv_error_at = None, write_error_at = None\<rparr>"

text \<open>
  A stand-in for the \<open>wave\<close> module in the examples: a file is one header byte, 82 for
  mono and 83 for stereo, and the frame data, 16 bit, 22050 Hz.
\<close>

definition example_params :: "nat \<Rightarrow> nat \<Rightarrow> wav_params" where
  "example_params channels n =
     \<lparr>nchannels = channels, sampwidth = 2, framerate = 22050, nframes = n,
      comptype = ''NONE'', compname = ''not compressed''\<rparr>"

definition example_read :: "byte list \<Rightarrow> wav option" where
  "example_read b =
     (case b of
        [] \<Rightarrow> None
      | h # d \<Rightarrow>
          if h = 82 then Some \<lparr>getparams = example_params 1 (length d div 2), frames = d\<rparr>
          else if h = 83 then Some \<lparr>getparams = example_params 2 (length d div 4), frames = d\<rparr>
          else None)"

definition example_wave :: wave_module where
  "example_wave =
     \<lparr>wave_read = example_read,
      wave_file = (\<lambda>p d. (if nchannels p = 1 then 82 else 83) # d)\<rparr>"

text \<open>
  Three temporary files for the stitcher: a mono file, an empty file and a stereo file.
\<close>

definition example_files :: filesystem where
  "example_files = [TempPath 1 \<mapsto> [82, 1, 2], TempPath 2 \<mapsto> [], TempPath 3 \<mapsto> [83, 3, 4, 5, 6]]"

definition example_wav_at :: "path \<Rightarrow> wav" where
  "example_wav_at f =
     (if f = TempPath 1 then \<lparr>getparams = example_params 1 1, frames = [1, 2]\<rparr>
      else \<lparr>getparams = example_params 2 1, frames = [3, 4, 5, 6]\<rparr>)"

text \<open>The three chunks of scenario A.\<close>

definition scenario_chunks :: "pystr list" where
  "scenario_chunks = [str ''Hello world.'', str ''This is a test.'', str ''Final sentence'']"

text \<open>
  The blocks that the server sends for the chunk of index \<open>i\<close> in the scenarios, and the
  audio that \<open>example_wave\<close> reads from them.
\<close>

definition scenario_blocks :: "nat \<Rightarrow> byte list list" where
  "scenario_blocks i =
     (if i = 0 then [[82, 1, 2]] else if i = 1 then [[82, 3], [4]] else [[82, 5, 6]])"

definition scenario_segment :: "nat \<Rightarrow> wav" where
  "scenario_segment i =
     \<lparr>getparams = example_params 1 1,
      frames = (if i = 0 then [1, 2] else if i = 1 then [3, 4] else [5, 6])\<rparr>"

text \<open>
  Scenario A: the three calls succeed; the futures complete in the order 3, 1, 2.
\<close>

definition scenario_a :: run_env where
  "scenario_a =
     \<lparr>user_stop = (\<lambda>p. False),
      as_completed = [2, 0, 1],
      task = (\<lambda>i. Runs (fetch_ok (scenario_blocks i))),
      opsys = no_failures\<rparr>"

text \<open>
  Scenario B: chunk 2 gets status 500, the calls of chunks 1 and 3 succeed; the future
  of chunk 2 is the first that \<open>as_completed\<close> yields.
\<close>

definition scenario_b :: run_env where
  "scenario_b =
     \<lparr>user_stop = (\<lambda>p. False),
      as_completed = [1, 0, 2],
      task = (\<lambda>i. if i = 1 then Runs (fetch_status 500)
                   else Runs (fetch_ok (scenario_blocks i))),
      opsys = no_failures\<rparr>"

section \<open>Properties of the text chunker\<close>

lemma py_replace_single_map:
  "py_replace [a] [b] s = map (\<lambda>c. if c = a then b else c) s"
  by (induction s) auto

lemma py_replace_single_del:
  "py_replace [a] [] s = filter (\<lambda>c. c \<noteq> a) s"
  by (induction s) auto

lemma processed_text_eq:
  "processed_text t = filter (\<lambda>c. c \<noteq> 13) (map (\<lambda>c. if c = 10 then 32 else c) t)"
  by (simp add: processed_text_def py_replace_single_map py_replace_single_del)

lemma processed_text_idem: "processed_text (processed_text t) = processed_text t"
  by (induction t) (auto simp: processed_text_eq)

lemma split_on_not_Nil: "split_on sep s \<noteq> []"
  by (induction sep s rule: split_on.induct) (auto split: list.splits)

lemma collect_chunks_layout:
  "frags \<noteq> [] \<Longrightarrow> n = i + length frags \<Longrightarrow>
   collect_chunks n i frags =
     [py_strip f @ str ''.''. f \<leftarrow> butlast frags, py_strip f \<noteq> []] @
     [py_strip f. f \<leftarrow> [last frags], py_strip f \<noteq> []]"
proof (induction frags arbitrary: i)
  case Nil
  then show ?case by simp
next
  case (Cons f fs)
  show ?case
  proof (cases "fs = []")
    case True
    with Cons.prems show ?thesis by (simp add: Let_def)
  next
    case False
    with Cons.prems have "collect_chunks n (Suc i) fs =
      [py_strip f @ str ''.''. f \<leftarrow> butlast fs, py_strip f \<noteq> []] @
      [py_strip f. f \<leftarrow> [last fs], py_strip f \<noteq> []]"
      by (intro Cons.IH) auto
    moreover from False Cons.prems have "int i < int n - 1"
      by (cases fs) auto
    ultimately show ?thesis using False by (simp add: Let_def)
  qed
qed

lemma split_on_absent: "sep \<noteq> [] \<Longrightarrow> \<not> py_contains sep s \<Longrightarrow> split_on sep s = [s]"
  by (induction s) auto

lemma py_contains_iff: "py_contains sub s \<longleftrightarrow> (\<exists>pre post. s = pre @ sub @ post)"
proof (induction s)
  case Nil
  then show ?case by auto
next
  case (Cons c cs)
  show ?case
  proof
    assume "py_contains sub (c # cs)"
    then consider "prefix sub (c # cs)" | "py_contains sub cs" by auto
    then show "\<exists>pre post. c # cs = pre @ sub @ post"
    proof cases
      case 1
      then obtain post where "c # cs = sub @ post" by (auto simp: prefix_def)
      then have "c # cs = [] @ sub @ post" by simp
      then show ?thesis by blast
    next
      case 2
      with Cons.IH obtain pre post where "cs = pre @ sub @ post" by auto
      then have "c # cs = (c # pre) @ sub @ post" by simp
      then show ?thesis by blast
    qed
  next
    assume "\<exists>pre post. c # cs = pre @ sub @ post"
    then obtain pre post where e: "c # cs = pre @ sub @ post" by auto
    show "py_contains sub (c # cs)"
    proof (cases pre)
      case Nil
      with e have "prefix sub (c # cs)" by (simp add: prefix_def)
      then show ?thesis by simp
    next
      case (Cons p ps)
      with e have "cs = ps @ sub @ post" by simp
      with Cons.IH show ?thesis by auto
    qed
  qed
qed

lemma py_strip_Nil_iff: "py_strip s = [] \<longleftrightarrow> (\<forall>c \<in> set s. isspace c)"
proof
  assume "py_strip s = []"
  then have a: "\<forall>x \<in> set (dropWhile isspace s). isspace x"
    by (simp add: py_strip_def)
  have "dropWhile isspace s = []"
  proof (rule ccontr)
    assume n: "dropWhile isspace s \<noteq> []"
    then have "\<not> isspace (hd (dropWhile isspace s))" by (rule hd_dropWhile)
    moreover from n have "hd (dropWhile isspace s) \<in> set (dropWhile isspace s)" by simp
    ultimately show False using a by blast
  qed
  then show "\<forall>c \<in> set s. isspace c" by simp
next
  assume "\<forall>c \<in> set s. isspace c"
  then show "py_strip s = []" by (auto simp: py_strip_def dest: set_dropWhileD)
qed

lemma blank_no_delim:
  assumes "\<forall>c \<in> set s. isspace c"
  shows "\<not> py_contains (str ''. '') s"
proof
  assume "py_contains (str ''. '') s"
  then obtain pre post where "s = pre @ str ''. '' @ post" by (auto simp: py_contains_iff)
  then have "46 \<in> set s" by (simp add: str_def)
  with assms have "isspace 46" by blast
  then show False by (simp add: isspace_def)
qed

lemma blank_processed:
  "\<forall>c \<in> set s. isspace c \<Longrightarrow> \<forall>c \<in> set (processed_text s). isspace c"
  by (auto simp: processed_text_eq isspace_def)

lemma text_chunks_blank: "py_strip t = [] \<Longrightarrow> text_chunks t = []"
proof -
  assume "py_strip t = []"
  then have b: "\<forall>c \<in> set (processed_text t). isspace c"
    by (simp add: py_strip_Nil_iff blank_processed)
  then have "split_on (str ''. '') (processed_text t) = [processed_text t]"
    by (intro split_on_absent blank_no_delim) (simp_all add: str_def)
  moreover from b have "py_strip (processed_text t) = []" by (simp add: py_strip_Nil_iff)
  ultimately show ?thesis by (simp add: text_chunks_def py_split_def str_def)
qed

lemma text_chunks_single:
  assumes "\<not> py_contains (str ''. '') (processed_text t)" "py_strip (processed_text t) \<noteq> []"
  shows "text_chunks t = [py_strip (processed_text t)]"
proof -
  from assms(1) have "split_on (str ''. '') (processed_text t) = [processed_text t]"
    by (intro split_on_absent) (simp_all add: str_def)
  with assms(2) show ?thesis by (simp add: text_chunks_def py_split_def str_def)
qed

lemma processed_text_no_breaks: "10 \<notin> set t \<Longrightarrow> 13 \<notin> set t \<Longrightarrow> processed_text t = t"
  by (induction t) (auto simp: processed_text_eq)

text \<open>
  Claim C4.  The chunks are the trimmed, non-empty fragments of the split of the normalised
  text on period-space, in order; every kept fragment but the last fragment of the split
  gets its period back.  The text of scenario A gives the three chunks
  \<open>Hello world.\<close>, \<open>This is a test.\<close> and \<open>Final sentence\<close>.
\<close>

theorem text_chunks_layout:
  "text_chunks t =
     [py_strip f @ str ''.''. f \<leftarrow> butlast (split_on (str ''. '') (processed_text t)),
        py_strip f \<noteq> []] @
     [py_strip f. f \<leftarrow> [last (split_on (str ''. '') (processed_text t))], py_strip f \<noteq> []]
   \<and> text_chunks (str ''Hello world. This is a test. Final sentence'') =
       [str ''Hello world.'', str ''This is a test.'', str ''Final sentence'']"
proof
  have "py_split (str ''. '') (processed_text t) = Some (split_on (str ''. '') (processed_text t))"
    by (simp add: py_split_def str_def)
  then show "text_chunks t =
     [py_strip f @ str ''.''. f \<leftarrow> butlast (split_on (str ''. '') (processed_text t)),
        py_strip f \<noteq> []] @
     [py_strip f. f \<leftarrow> [last (split_on (str ''. '') (processed_text t))], py_strip f \<noteq> []]"
    unfolding text_chunks_def
    by (simp add: collect_chunks_layout [OF split_on_not_Nil])
next
  show "text_chunks (str ''Hello world. This is a test. Final sentence'') =
       [str ''Hello world.'', str ''This is a test.'', str ''Final sentence'']"
    by (simp add: text_chunks_def py_split_def processed_text_def str_def py_strip_def isspace_def)
qed

text \<open>
  Claim C5, as stated, fails: the text \<open>a\<close>, line feed, \<open>b\<close> contains no period-space,
  and its single chunk is \<open>a b\<close>, not the trimmed text itself.
\<close>

theorem single_chunk_counterexample:
  "\<not> py_contains (str ''. '') (str ''a'' @ [10] @ str ''b'')
   \<and> py_strip (str ''a'' @ [10] @ str ''b'') \<noteq> []
   \<and> text_chunks (str ''a'' @ [10] @ str ''b'') \<noteq> [py_strip (str ''a'' @ [10] @ str ''b'')]"
  by (simp add: text_chunks_def py_split_def processed_text_def str_def py_strip_def isspace_def)

text \<open>
  Claim C5, amended.  A text whose normalised form (line feeds replaced by spaces, carriage
  returns removed) contains no period-space and is not blank yields exactly one chunk, the
  trimmed normalised text; a text without line feeds and carriage returns is its own
  normalised form.  An empty or white-space-only text yields no chunk, and
  \<open>start_synthesis\<close> starts no worker for it.
\<close>

theorem text_chunks_no_delimiter:
  "(\<not> py_contains (str ''. '') (processed_text t) \<and> py_strip (processed_text t) \<noteq> []
      \<longrightarrow> text_chunks t = [py_strip (processed_text t)])
   \<and> (10 \<notin> set t \<and> 13 \<notin> set t \<longrightarrow> processed_text t = t)
   \<and> (py_strip t = [] \<longrightarrow>
        text_chunks t = [] \<and> (\<forall>cs. start_synthesis running t url out \<noteq> WorkerStarted cs))"
  by (simp add: text_chunks_single processed_text_no_breaks text_chunks_blank start_synthesis_def)

theorem text_chunks_no_delimiter_witness:
  "text_chunks (str ''  Hello world '') = [str ''Hello world'']
   \<and> text_chunks (str ''  '' @ [10]) = []
   \<and> start_synthesis False (str ''  '' @ [10]) (str ''http://x'') (str ''out.wav'') = NoTextLoaded"
proof -
  have n: "10 \<notin> set (str ''  Hello world '') \<and> 13 \<notin> set (str ''  Hello world '')"
    by (simp add: str_def)
  have c: "\<not> py_contains (str ''. '') (str ''  Hello world '')"
    by (simp add: str_def)
  have s: "py_strip (str ''  Hello world '') = str ''Hello world''"
    by (simp add: str_def py_strip_def isspace_def)
  have b: "py_strip (str ''  '' @ [10]) = []"
    by (simp add: str_def py_strip_def isspace_def)
  have "processed_text (str ''  Hello world '') = str ''  Hello world ''"
    using text_chunks_no_delimiter [of "str ''  Hello world ''"] n by blast
  with c s have "text_chunks (str ''  Hello world '') = [str ''Hello world'']"
    using text_chunks_no_delimiter [of "str ''  Hello world ''"] by (simp add: str_def)
  moreover have "text_chunks (str ''  '' @ [10]) = []"
    using text_chunks_no_delimiter [of "str ''  '' @ [10]"] b by blast
  moreover have "start_synthesis False (str ''  '' @ [10]) (str ''http://x'') (str ''out.wav'') = NoTextLoaded"
    using b by (simp add: start_synthesis_def startswith_def str_def py_strip_def isspace_def)
  ultimately show ?thesis by simp
qed

text \<open>
  Claim C6, as stated, fails: a lone carriage return is a line break, and the chunker
  removes it instead of putting a space.  The text \<open>a.\<close>, carriage return, \<open>b\<close> is one
  chunk \<open>a.b\<close>; with the line break replaced by a space it is the two chunks \<open>a.\<close>
  and \<open>b\<close>.
\<close>

theorem line_break_counterexample:
  "text_chunks (str ''a.'' @ [13] @ str ''b'') = [str ''a.b'']
   \<and> spec_line_breaks_to_spaces (str ''a.'' @ [13] @ str ''b'') = str ''a. b''
   \<and> text_chunks (spec_line_breaks_to_spaces (str ''a.'' @ [13] @ str ''b'')) = [str ''a.'', str ''b'']"
  by (simp add: text_chunks_def py_split_def processed_text_def str_def py_strip_def isspace_def)

text \<open>
  Claim C6, amended.  Chunking a text gives the chunks of its normalised form, which is the
  text with every line feed replaced by one space and every carriage return removed: a
  line feed and a CR LF pair each become one space, a lone carriage return becomes nothing.
\<close>

theorem text_chunks_normalised:
  "text_chunks t = text_chunks (processed_text t)
   \<and> processed_text t = filter (\<lambda>c. c \<noteq> 13) (map (\<lambda>c. if c = 10 then 32 else c) t)
   \<and> processed_text (a @ [13, 10] @ b) = processed_text a @ [32] @ processed_text b
   \<and> processed_text (a @ [13] @ b) = processed_text a @ processed_text b"
  by (simp add: text_chunks_def processed_text_idem) (simp add: processed_text_eq)

section \<open>Properties of the stitcher\<close>

lemma write_all_frames_readable:
  assumes "\<forall>f \<in> set fl. \<exists>b. fs f = Some b \<and> wave_read wave b = Some (wav_at f)"
  shows "write_all_frames wave fs params fl written log =
           (None, written @ concat (map (\<lambda>f. frames (wav_at f)) fl),
            log @ [log_message (FileMsg (ParametersMismatch f)) WARNING.
                     f \<leftarrow> fl, getparams (wav_at f) \<noteq> params])"
  using assms
proof (induction fl arbitrary: written log)
  case Nil
  then show ?case by simp
next
  case (Cons f fl)
  from Cons.prems obtain b where b: "fs f = Some b" "wave_read wave b = Some (wav_at f)"
    by auto
  from Cons.prems have "\<forall>f \<in> set fl. \<exists>b. fs f = Some b \<and> wave_read wave b = Some (wav_at f)"
    by simp
  note IH = Cons.IH [OF this]
  show ?case by (simp add: b IH)
qed

lemma combine_none_valid:
  "valid_input_files fs input_files = [] \<Longrightarrow>
   combine_wav_files wave os input_files output_file fs = (Some ValueError, fs, [])"
  by (simp add: combine_wav_files_def)

lemma combine_readable:
  assumes valid: "valid_input_files fs input_files = v # vs"
    and out: "output_file \<notin> set input_files"
    and rd: "\<forall>f \<in> set (v # vs). \<exists>b. fs f = Some b \<and> wave_read wave b = Some (wav_at f)"
    and op: "\<not> open_fails os output_file"
  shows "combine_wav_files wave os input_files output_file fs =
           (None,
            fs(output_file \<mapsto> wave_file wave (getparams (wav_at v))
                  (concat (map (\<lambda>f. frames (wav_at f)) (v # vs)))),
            log_message (FileMsg (CombiningValidChunks (length (v # vs)))) INFO #
            [log_message (FileMsg (ParametersMismatch f)) WARNING.
               f \<leftarrow> v # vs, getparams (wav_at f) \<noteq> getparams (wav_at v)])"
proof -
  from valid have ne: "input_files \<noteq> []" by (auto simp: valid_input_files_def)
  have sub: "set (v # vs) \<subseteq> set input_files"
    using valid [symmetric] by (auto simp: valid_input_files_def)
  with out have notin: "output_file \<notin> set (v # vs)" by blast
  from rd obtain b where b: "fs v = Some b" "wave_read wave b = Some (wav_at v)" by auto
  have rd1: "\<forall>f \<in> set (v # vs). \<exists>b. (fs(output_file \<mapsto> [])) f = Some b \<and>
               wave_read wave b = Some (wav_at f)"
    using rd notin by auto
  show ?thesis
    unfolding combine_wav_files_def
    by (simp add: ne valid b op Let_def write_all_frames_readable [OF rd1]
          del: write_all_frames.simps)
qed

text \<open>
  Claim C8.  The stitcher keeps the input files that exist with a size above zero.  With
  none left it raises ValueError and touches nothing.  Otherwise, when the output is no
  input file and can be opened, and each kept file is readable by the \<open>wave\<close> module,
  the output gets the parameters of the first kept file and the frames of all kept files
  in order; a later file whose audio format (channels, rate, width) differs from the
  first is logged with a warning, and its frames are in the output all the same.
\<close>

theorem combine_wav_files_lenient:
  assumes "output_file \<notin> set input_files"
    and "\<forall>f \<in> set (valid_input_files fs input_files).
           \<exists>b. fs f = Some b \<and> wave_read wave b = Some (wav_at f)"
    and "\<not> open_fails os output_file"
  shows "valid_input_files fs input_files = [f \<leftarrow> input_files. \<exists>b. fs f = Some b \<and> b \<noteq> []]
    \<and> (valid_input_files fs input_files = [] \<longrightarrow>
         combine_wav_files wave os input_files output_file fs = (Some ValueError, fs, []))
    \<and> (\<forall>v vs. valid_input_files fs input_files = v # vs \<longrightarrow>
         (\<exists>log. combine_wav_files wave os input_files output_file fs =
                  (None,
                   fs(output_file \<mapsto> wave_file wave (getparams (wav_at v))
                        (concat (map (\<lambda>f. frames (wav_at f)) (v # vs)))),
                   log)
                \<and> (\<forall>f \<in> set vs.
                      audio_format (getparams (wav_at f)) \<noteq> audio_format (getparams (wav_at v))
                      \<longrightarrow> log_message (FileMsg (ParametersMismatch f)) WARNING \<in> set log)))"
proof (intro conjI allI impI)
  have "exists_nonempty fs = (\<lambda>f. \<exists>b. fs f = Some b \<and> b \<noteq> [])"
    by (auto simp: exists_nonempty_def fun_eq_iff split: option.splits)
  then show "valid_input_files fs input_files = [f \<leftarrow> input_files. \<exists>b. fs f = Some b \<and> b \<noteq> []]"
    by (simp add: valid_input_files_def)
next
  assume "valid_input_files fs input_files = []"
  then show "combine_wav_files wave os input_files output_file fs = (Some ValueError, fs, [])"
    by (rule combine_none_valid)
next
  fix v vs
  assume valid: "valid_input_files fs input_files = v # vs"
  with assms(2) have rd: "\<forall>f \<in> set (v # vs). \<exists>b. fs f = Some b \<and> wave_read wave b = Some (wav_at f)"
    by simp
  note C = combine_readable [OF valid assms(1) rd assms(3)]
  have "\<forall>f \<in> set vs.
          audio_format (getparams (wav_at f)) \<noteq> audio_format (getparams (wav_at v))
          \<longrightarrow> log_message (FileMsg (ParametersMismatch f)) WARNING
               \<in> set (log_message (FileMsg (CombiningValidChunks (length (v # vs)))) INFO #
                      [log_message (FileMsg (ParametersMismatch f)) WARNING.
                         f \<leftarrow> v # vs, getparams (wav_at f) \<noteq> getparams (wav_at v)])"
    by auto
  with C show "\<exists>log. combine_wav_files wave os input_files output_file fs =
                  (None,
                   fs(output_file \<mapsto> wave_file wave (getparams (wav_at v))
                        (concat (map (\<lambda>f. frames (wav_at f)) (v # vs)))),
                   log)
                \<and> (\<forall>f \<in> set vs.
                      audio_format (getparams (wav_at f)) \<noteq> audio_format (getparams (wav_at v))
                      \<longrightarrow> log_message (FileMsg (ParametersMismatch f)) WARNING \<in> set log)"
    by blast
qed

theorem combine_wav_files_lenient_witness:
  "valid_input_files example_files [TempPath 1, TempPath 2, TempPath 3] = [TempPath 1, TempPath 3]
   \<and> audio_format (getparams (example_wav_at (TempPath 3))) \<noteq>
       audio_format (getparams (example_wav_at (TempPath 1)))
   \<and> (\<exists>log. combine_wav_files example_wave no_failures [TempPath 1, TempPath 2, TempPath 3]
               FinalOutputPath example_files =
               (None, example_files(FinalOutputPath \<mapsto> [82, 1, 2, 3, 4, 5, 6]), log)
             \<and> log_message (FileMsg (ParametersMismatch (TempPath 3))) WARNING \<in> set log)
   \<and> combine_wav_files example_wave no_failures [TempPath 2] FinalOutputPath example_files =
       (Some ValueError, example_files, [])"
proof -
  have v: "valid_input_files example_files [TempPath 1, TempPath 2, TempPath 3] =
             [TempPath 1, TempPath 3]"
    by (simp add: valid_input_files_def example_files_def exists_nonempty_def)
  have v2: "valid_input_files example_files [TempPath 2] = []"
    by (simp add: valid_input_files_def example_files_def exists_nonempty_def)
  have d: "audio_format (getparams (example_wav_at (TempPath 3))) \<noteq>
           audio_format (getparams (example_wav_at (TempPath 1)))"
    by (simp add: audio_format_def example_wav_at_def example_params_def)
  have h1: "FinalOutputPath \<notin> set [TempPath 1, TempPath 2, TempPath 3]" by simp
  have h2: "\<forall>f \<in> set (valid_input_files example_files [TempPath 1, TempPath 2, TempPath 3]).
              \<exists>b. example_files f = Some b \<and> wave_read example_wave b = Some (example_wav_at f)"
    unfolding v
    by (simp add: example_files_def example_wave_def example_read_def example_wav_at_def)
  have h3: "\<not> open_fails no_failures FinalOutputPath" by (simp add: no_failures_def)
  have h1': "FinalOutputPath \<notin> set [TempPath 2]" by simp
  have h2': "\<forall>f \<in> set (valid_input_files example_files [TempPath 2]).
              \<exists>b. example_files f = Some b \<and> wave_read example_wave b = Some (example_wav_at f)"
    unfolding v2 by simp
  from combine_wav_files_lenient [OF h1 h2 h3, THEN conjunct2, THEN conjunct2, rule_format, OF v]
  obtain log where
    c: "combine_wav_files example_wave no_failures [TempPath 1, TempPath 2, TempPath 3]
          FinalOutputPath example_files =
        (None,
         example_files(FinalOutputPath \<mapsto>
           wave_file example_wave (getparams (example_wav_at (TempPath 1)))
             (concat (map (\<lambda>f. frames (example_wav_at f)) [TempPath 1, TempPath 3]))),
         log)"
    and m: "\<forall>f \<in> set [TempPath 3].
              audio_format (getparams (example_wav_at f)) \<noteq>
              audio_format (getparams (example_wav_at (TempPath 1)))
              \<longrightarrow> log_message (FileMsg (ParametersMismatch f)) WARNING \<in> set log"
    by blast
  from m d have "log_message (FileMsg (ParametersMismatch (TempPath 3))) WARNING \<in> set log"
    by simp
  moreover have "wave_file example_wave (getparams (example_wav_at (TempPath 1)))
             (concat (map (\<lambda>f. frames (example_wav_at f)) [TempPath 1, TempPath 3])) =
           [82, 1, 2, 3, 4, 5, 6]"
    by (simp add: example_wav_at_def example_wave_def example_params_def)
  ultimately have "\<exists>log. combine_wav_files example_wave no_failures
               [TempPath 1, TempPath 2, TempPath 3] FinalOutputPath example_files =
               (None, example_files(FinalOutputPath \<mapsto> [82, 1, 2, 3, 4, 5, 6]), log)
             \<and> log_message (FileMsg (ParametersMismatch (TempPath 3))) WARNING \<in> set log"
    using c by simp
  moreover from combine_wav_files_lenient [OF h1' h2' h3, THEN conjunct2, THEN conjunct1] v2
  have "combine_wav_files example_wave no_failures [TempPath 2] FinalOutputPath example_files =
       (Some ValueError, example_files, [])"
    by simp
  ultimately show ?thesis using v d by blast
qed

section \<open>Properties of the fetcher\<close>

lemma download_written:
  "download e n i blocks written log = (st, w', i', log') \<Longrightarrow>
     (st = Completed \<longrightarrow> w' = written @ concat blocks) \<and>
     (st = Stopped \<longrightarrow> stop_visible e (2 + i'))"
  by (induction e n i blocks written log rule: download.induct) (auto split: if_splits)

lemma synthesize_chunk_success:
  assumes "synthesize_chunk os e n p fs = (Some q, fs', log)"
  shows "q = p \<and> fs' = fs(p \<mapsto> response_bytes e) \<and> response_bytes e \<noteq> []"
proof -
  from assms obtain c blocks where p: "post e = Response c blocks"
    by (cases "post e") (auto simp: synthesize_chunk_def Let_def split: if_splits)
  with assms have s: "save_audio os e n p blocks fs [log_message (ChunkMsg n StartingRequest) INFO]
                       = (Some q, fs', log)"
    by (auto simp: synthesize_chunk_def Let_def split: if_splits)
  obtain st w i l where d: "download e n 0 blocks [] [log_message (ChunkMsg n StartingRequest) INFO] = (st, w, i, l)"
    by (metis prod_cases4)
  from s d have "st = Completed" and r: "q = p" "fs' = fs(p \<mapsto> w)" "w \<noteq> []"
    using download_written [OF d]
    by (cases st; auto simp: save_audio_def Let_def split: if_splits)+
  with download_written [OF d] have "w = concat blocks" by simp
  with r p show ?thesis by (simp add: response_bytes_def)
qed

lemma download_independent:
  "fst (download e n i blocks written log) = fst (download e n' i blocks written' log') \<and>
   fst (snd (snd (download e n i blocks written log))) = fst (snd (snd (download e n' i blocks written' log')))"
  by (induction e n i blocks written log arbitrary: written' log' rule: download.induct) auto


lemma save_audio_result_independent:
  "fst (save_audio os e n p blocks fs log) = fst (save_audio os e n p blocks fs' log)"
  by (simp add: save_audio_def Let_def split: prod.splits)

lemma synthesize_chunk_result_independent:
  "fst (synthesize_chunk os e n p fs) = fst (synthesize_chunk os e n p fs')"
  by (simp add: synthesize_chunk_def Let_def save_audio_result_independent [of os e n p _ fs _ fs']
           split: post_result.splits)

lemma save_audio_other_files:
  "q \<noteq> p \<Longrightarrow> fst (snd (save_audio os e n p blocks fs log)) q = fs q"
  by (simp add: save_audio_def Let_def split: prod.splits)

lemma synthesize_chunk_other_files:
  "q \<noteq> p \<Longrightarrow> fst (snd (synthesize_chunk os e n p fs)) q = fs q"
  by (simp add: synthesize_chunk_def Let_def save_audio_other_files split: post_result.splits)

lemma run_task_result_independent:
  "fst (run_task os t i fs) = fst (run_task os t i fs')"
  using synthesize_chunk_result_independent [of os _ "Suc i" "TempPath (Suc i)" fs fs']
  by (cases t) (simp_all add: split_def Let_def)

lemma run_task_other_files:
  "q \<noteq> TempPath (Suc i) \<Longrightarrow> snd (run_task os t i fs) q = fs q"
  using synthesize_chunk_other_files [of q "TempPath (Suc i)" os _ "Suc i" fs]
  by (cases t) (simp_all add: split_def Let_def)

lemma run_task_success:
  assumes "fst (run_task os t i fs) = Returned (Some q)"
  shows "q = TempPath (Suc i) \<and> (\<exists>e. t = Runs e \<and>
           snd (run_task os t i fs) = fs(TempPath (Suc i) \<mapsto> response_bytes e) \<and>
           response_bytes e \<noteq> [])"
proof (cases t)
  case (Runs e)
  obtain r fs' log where s: "synthesize_chunk os e (Suc i) (TempPath (Suc i)) fs = (r, fs', log)"
    by (metis prod_cases3)
  with assms Runs have "r = Some q" by simp
  with s synthesize_chunk_success [of os e "Suc i" "TempPath (Suc i)" fs q fs' log]
  show ?thesis using Runs by simp
qed (use assms in simp_all)

lemma run_tasks_spec:
  "run_tasks env is fs = (cs, fs') \<Longrightarrow>
     map fst cs = is \<and> (\<forall>(i, r) \<in> set cs. r = fetch_result env i) \<and>
     fs' FinalOutputPath = fs FinalOutputPath"
proof (induction "is" arbitrary: fs cs fs')
  case Nil
  then show ?case by simp
next
  case (Cons i rest)
  obtain r fs1 where t: "run_task (opsys env) (task env i) i fs = (r, fs1)" by fastforce
  obtain rs fs2 where ts: "run_tasks env rest fs1 = (rs, fs2)" by fastforce
  from Cons.prems t ts have cs: "cs = (i, r) # rs" and fs': "fs' = fs2" by simp_all
  from t have "r = fetch_result env i"
    using run_task_result_independent [of "opsys env" "task env i" i fs Map.empty]
    by (simp add: fetch_result_def)
  moreover from t have "fs1 FinalOutputPath = fs FinalOutputPath"
    using run_task_other_files [of FinalOutputPath i "opsys env" "task env i" fs] by simp
  ultimately show ?case using Cons.IH [OF ts] cs fs' by simp
qed


text \<open>
  A transport failure other than a timeout: with the stop flag set it is logged as
  ignored, at WARNING; without, it is logged at ERROR.  The value returned is \<open>None\<close>
  both times, and no exception leaves the call.
\<close>

lemma request_exception_handling:
  assumes "post e = RequestException" "\<not> stop_visible e 0"
  shows "synthesize_chunk os e n p fs =
           (None, fs,
            [log_message (ChunkMsg n StartingRequest) INFO,
             if stop_visible e 1
             then log_message (ChunkMsg n NetworkErrorIgnored) WARNING
             else log_message (ChunkMsg n NetworkError) ERROR])"
  using assms by (simp add: synthesize_chunk_def)

text \<open>
  Claim C7 fails for a timeout: the handler of \<open>requests.exceptions.Timeout\<close> does not
  look at the stop flag.  With the flag set when \<open>requests.post\<close> raises Timeout, the call
  still logs the time-out at ERROR; it returns \<open>None\<close> and raises nothing.
\<close>

theorem timeout_reported_after_stop:
  "synthesize_chunk os
     \<lparr>stop_time = Some 1, post = Timeout, recv_error_at = None, write_error_at = None\<rparr>
     chunk_num temp_output_path fs =
   (None, fs,
    [log_message (ChunkMsg chunk_num StartingRequest) INFO,
     log_message (ChunkMsg chunk_num ApiCallTimedOut) ERROR])"
  by (simp add: synthesize_chunk_def stop_visible_def)

section \<open>Properties of the coordinator\<close>

lemma read_stop_simps [simp]:
  "results (read_stop env p w) = results w"
  "emitted (read_stop env p w) = emitted w"
  "chunks_processed (read_stop env p w) = chunks_processed w"
  "stop_requested (read_stop env p w) = (stop_requested w \<or> user_stop env p)"
  by (simp_all add: read_stop_def)

lemma emit_simps [simp]:
  "results (emit sigs w) = results w"
  "emitted (emit sigs w) = emitted w @ sigs"
  "chunks_processed (emit sigs w) = chunks_processed w"
  "stop_requested (emit sigs w) = stop_requested w"
  by (simp_all add: emit_def)

lemma read_stop_quiet: "\<not> user_stop env p \<Longrightarrow> read_stop env p w = w"
  by (simp add: read_stop_def)

lemma submit_loop_spec:
  "submit_loop env i n w = (k, w') \<Longrightarrow>
     k \<le> i + n \<and> results w' = results w \<and>
     (stop_requested w \<longrightarrow> stop_requested w') \<and>
     (k < i + n \<longrightarrow> stop_requested w') \<and>
     (\<forall>m. i \<le> m \<and> m < i + n \<and> user_stop env (BeforeSubmit m) \<longrightarrow> stop_requested w') \<and>
     (final_output_ready \<notin> set (emitted w) \<longrightarrow> final_output_ready \<notin> set (emitted w'))"
proof (induction n arbitrary: i w)
  case 0
  then show ?case by auto
next
  case (Suc n)
  show ?case
  proof (cases "stop_requested (read_stop env (BeforeSubmit i) w)")
    case True
    with Suc.prems show ?thesis by (auto simp: Let_def)
  next
    case False
    with Suc.prems have "submit_loop env (Suc i) n (read_stop env (BeforeSubmit i) w) = (k, w')"
      by (simp add: Let_def)
    note IH = Suc.IH [OF this]
    have "stop_requested w'" if "i \<le> m" "m < i + Suc n" "user_stop env (BeforeSubmit m)" for m
    proof (cases "m = i")
      case True
      with that False show ?thesis by simp
    next
      case False
      with that have "Suc i \<le> m \<and> m < Suc i + n \<and> user_stop env (BeforeSubmit m)" by simp
      with IH show ?thesis by blast
    qed
    moreover from IH False have "k \<le> i + Suc n" "results w' = results w"
      "stop_requested w \<longrightarrow> stop_requested w'" "k < i + Suc n \<longrightarrow> stop_requested w'"
      "final_output_ready \<notin> set (emitted w) \<longrightarrow> final_output_ready \<notin> set (emitted w')"
      by simp_all
    ultimately show ?thesis by blast
  qed
qed

lemma submit_loop_no_stop:
  "\<forall>p. \<not> user_stop env p \<Longrightarrow> \<not> stop_requested w \<Longrightarrow> submit_loop env i n w = (i + n, w)"
  by (induction n arbitrary: i) (simp_all add: Let_def read_stop_quiet)

lemma set_update_subset: "set (AList.update k v al) \<subseteq> insert (k, v) (set al)"
  by (induction al) auto

lemma drain_invariant:
  assumes init: "P w"
    and sub: "set cs \<subseteq> S"
    and rd: "\<And>w p. P w \<Longrightarrow> P (read_stop env p w)"
    and em: "\<And>w sigs. P w \<Longrightarrow> final_output_ready \<notin> set sigs \<Longrightarrow> P (emit sigs w)"
    and up: "\<And>w i p n sigs. P w \<Longrightarrow> (i, Returned (Some p)) \<in> S \<Longrightarrow>
               final_output_ready \<notin> set sigs \<Longrightarrow>
               P (w\<lparr>results := AList.update i p (results w), chunks_processed := n,
                     emitted := emitted w @ sigs\<rparr>)"
    and st: "\<And>w. P w \<Longrightarrow> P (w\<lparr>stop_requested := True\<rparr>)"
  shows "P (drain env T j cs w)"
  using init sub
proof (induction cs arbitrary: j w)
  case Nil
  then show ?case by simp
next
  case (Cons c cs)
  obtain i r where c: "c = (i, r)" by (cases c)
  define w1 where "w1 = read_stop env (LoopTop j) w"
  have p1: "P w1" unfolding w1_def using Cons.prems(1) by (rule rd)
  have sub': "set cs \<subseteq> S" using Cons.prems(2) by simp
  show ?case
  proof (cases "stop_requested w1")
    case True
    have "P (emit [log_message (RunMsg StopCancellingPending) WARNING] w1)"
      by (rule em [OF p1]) simp
    from Cons.IH [OF this sub'] True show ?thesis
      unfolding c w1_def by (simp add: Let_def)
  next
    case False
    show ?thesis
    proof (cases r)
      case (Returned ro)
      show ?thesis
      proof (cases ro)
        case None
        define w2 where "w2 = read_stop env (AfterResult j) w1"
        have p2: "P w2" unfolding w2_def using p1 by (rule rd)
        show ?thesis
        proof (cases "stop_requested w2")
          case True
          from Cons.IH [OF p2 sub'] True False show ?thesis
            unfolding c w1_def w2_def Returned None by (simp add: Let_def)
        next
          case F2: False
          have "P ((emit [log_message (RunMsg (ChunkFailedAborting (Suc i))) ERROR,
                          critical_error] w2)\<lparr>stop_requested := True\<rparr>)"
            by (rule st, rule em [OF p2]) simp
          with F2 False show ?thesis
            unfolding c w1_def w2_def Returned None by (simp add: Let_def)
        qed
      next
        case (Some p)
        from Cons.prems(2) have "(i, Returned (Some p)) \<in> S"
          unfolding c Returned Some by simp
        from up [OF p1 this, of "[progress_update (Suc (chunks_processed w1)) (T + 1)]"
                   "Suc (chunks_processed w1)"]
        have "P (w1\<lparr>results := AList.update i p (results w1),
                     chunks_processed := Suc (chunks_processed w1),
                     emitted := emitted w1 @
                       [progress_update (Suc (chunks_processed w1)) (T + 1)]\<rparr>)"
          by simp
        from Cons.IH [OF this sub'] False show ?thesis
          unfolding c w1_def Returned Some by (simp add: Let_def)
      qed
    next
      case CancelledError
      have "P (emit [log_message (RunMsg (ChunkWasCancelled (Suc i))) WARNING] w1)"
        by (rule em [OF p1]) simp
      from Cons.IH [OF this sub'] False show ?thesis
        unfolding c w1_def CancelledError by (simp add: Let_def)
    next
      case RaisedException
      define w2 where "w2 = read_stop env (InExcept j)
          (emit [log_message (RunMsg (ChunkGeneratedException (Suc i))) ERROR] w1)"
      have p2: "P w2" unfolding w2_def by (rule rd, rule em [OF p1]) simp
      have "P ((emit [critical_error] w2)\<lparr>stop_requested := True\<rparr>)"
        by (rule st, rule em [OF p2]) simp
      with p2 False show ?thesis
        unfolding c w1_def w2_def RaisedException by (simp add: Let_def)
    qed
  qed
qed

lemma drain_stop_mono:
  "stop_requested w \<Longrightarrow> stop_requested (drain env T j cs w)"
  by (rule drain_invariant [where P = stop_requested and S = "set cs"]) simp_all

lemma drain_not_ready:
  "final_output_ready \<notin> set (emitted w) \<Longrightarrow>
   final_output_ready \<notin> set (emitted (drain env T j cs w))"
  by (rule drain_invariant [where P = "\<lambda>w. final_output_ready \<notin> set (emitted w)" and S = "set cs"])
     simp_all

lemma drain_distinct:
  "distinct (map fst (results w)) \<Longrightarrow> distinct (map fst (results (drain env T j cs w)))"
  by (rule drain_invariant [where P = "\<lambda>w. distinct (map fst (results w))" and S = "set cs"])
     (simp_all add: distinct_update)

lemma drain_results:
  "set (results (drain env T j cs w)) \<subseteq>
     set (results w) \<union> {(k, p). (k, Returned (Some p)) \<in> set cs}"
proof (rule drain_invariant [where S = "set cs" and
         P = "\<lambda>w'. set (results w') \<subseteq> set (results w) \<union> {(k, p). (k, Returned (Some p)) \<in> set cs}"])
  fix w' :: worker and i p n sigs
  assume "set (results w') \<subseteq> set (results w) \<union> {(k, p). (k, Returned (Some p)) \<in> set cs}"
    and "(i, Returned (Some p)) \<in> set cs"
  then show "set (results (w'\<lparr>results := AList.update i p (results w'), chunks_processed := n,
                 emitted := emitted w' @ sigs\<rparr>))
             \<subseteq> set (results w) \<union> {(k, p). (k, Returned (Some p)) \<in> set cs}"
    using set_update_subset [of i p "results w'"] by auto
qed simp_all

lemma drain_Cons_shape:
  "stop_requested (drain env T j (c # cs) w) \<or>
   (\<exists>w''. drain env T j (c # cs) w = drain env T (Suc j) cs w'')"
proof -
  obtain i r where c: "c = (i, r)" by (cases c)
  show ?thesis
  proof (cases r)
    case (Returned ro)
    then show ?thesis unfolding c by (cases ro) (auto simp: Let_def)
  next
    case CancelledError
    then show ?thesis unfolding c by (auto simp: Let_def)
  next
    case RaisedException
    then show ?thesis unfolding c by (auto simp: Let_def)
  qed
qed

lemma drain_user_stop:
  "m < length cs \<Longrightarrow> user_stop env (LoopTop (j + m)) \<Longrightarrow>
   stop_requested (drain env T j cs w)"
proof (induction cs arbitrary: j m w)
  case Nil
  then show ?case by simp
next
  case (Cons c cs)
  show ?case
  proof (cases m)
    case 0
    obtain i r where c: "c = (i, r)" by (cases c)
    from 0 Cons.prems show ?thesis unfolding c by (simp add: Let_def drain_stop_mono)
  next
    case (Suc m')
    with Cons.prems have "m' < length cs" "user_stop env (LoopTop (Suc j + m'))" by simp_all
    from Cons.IH [OF this] drain_Cons_shape [of env T j c cs w] show ?thesis by auto
  qed
qed

lemma drain_all_success:
  assumes "\<forall>p. \<not> user_stop env p" "\<not> stop_requested w"
    and "\<forall>(i, r) \<in> set cs. r = Returned (Some (f i))"
  shows "\<not> stop_requested (drain env T j cs w) \<and>
         map_of (results (drain env T j cs w)) k =
           (if k \<in> fst ` set cs then Some (f k) else map_of (results w) k)"
  using assms(2,3)
proof (induction cs arbitrary: j w)
  case Nil
  then show ?case by simp
next
  case (Cons c cs)
  obtain i r where c: "c = (i, r)" by (cases c)
  with Cons.prems have r: "r = Returned (Some (f i))" by simp
  define w' where "w' = w\<lparr>results := AList.update i (f i) (results w),
      chunks_processed := Suc (chunks_processed w),
      emitted := emitted w @ [progress_update (Suc (chunks_processed w)) (T + 1)]\<rparr>"
  have step: "drain env T j (c # cs) w = drain env T (Suc j) cs w'"
    unfolding c r w'_def using assms(1) Cons.prems(1)
    by (simp add: Let_def read_stop_quiet)
  have "\<not> stop_requested w'" using Cons.prems(1) by (simp add: w'_def)
  moreover from Cons.prems have "\<forall>(i, r) \<in> set cs. r = Returned (Some (f i))" by simp
  ultimately have IH: "\<not> stop_requested (drain env T (Suc j) cs w') \<and>
         map_of (results (drain env T (Suc j) cs w')) k =
           (if k \<in> fst ` set cs then Some (f k) else map_of (results w') k)"
    by (rule Cons.IH)
  have "map_of (results w') k = (if k = i then Some (f i) else map_of (results w) k)"
    by (simp add: w'_def update_conv')
  with IH have "\<not> stop_requested (drain env T (Suc j) cs w') \<and>
         map_of (results (drain env T (Suc j) cs w')) k =
           (if k \<in> fst ` set (c # cs) then Some (f k) else map_of (results w) k)"
    by (auto simp: c)
  then show ?case unfolding step .
qed

lemma remove_each_other:
  "p \<notin> set files \<Longrightarrow> fst (remove_each os files fs log n) p = fs p"
  by (induction os files fs log n rule: remove_each.induct) auto

lemma remove_each_log:
  "final_output_ready \<notin> set log \<Longrightarrow>
   final_output_ready \<notin> set (fst (snd (remove_each os files fs log n)))"
  by (induction os files fs log n rule: remove_each.induct) auto

lemma cleanup_other:
  "p \<notin> set files \<Longrightarrow> fst (cleanup_temp_files os files fs) p = fs p"
  using remove_each_other [of p files os fs]
  by (simp add: cleanup_temp_files_def split_def Let_def)

lemma cleanup_log:
  "final_output_ready \<notin> set (snd (cleanup_temp_files os files fs))"
  using remove_each_log [of "[log_message (FileMsg (CleaningUp (length files))) INFO]" os files fs 0]
  by (simp add: cleanup_temp_files_def split_def Let_def)

lemma all_keys:
  assumes "distinct (map fst res)" "fst ` set res \<subseteq> {..<T}" "T \<le> length res"
  shows "fst ` set res = {..<T}"
proof -
  have "card (fst ` set res) = length res"
    using assms(1) distinct_card [of "map fst res"] by simp
  with assms(3) have "card {..<T} \<le> card (fst ` set res)" by simp
  with assms(2) show ?thesis by (intro card_seteq) simp_all
qed

lemma map_filter_all:
  "\<forall>x \<in> set xs. f x = Some (g x) \<Longrightarrow> List.map_filter f xs = map g xs"
  by (induction xs) simp_all

lemma ordered_temp_files_all:
  assumes "distinct (map fst res)" "fst ` set res = {..<T}"
    and "\<forall>k < T. map_of res k = Some (g k)"
  shows "ordered_temp_files res = map g [0..<T]"
proof -
  have "sort (map fst res) = [0..<T]"
  proof (rule sorted_distinct_set_unique)
    show "set (sort (map fst res)) = set [0..<T]" using assms(2) by auto
  qed (use assms(1) in simp_all)
  then show ?thesis using assms(3) by (simp add: ordered_temp_files_def map_filter_all)
qed

lemma post_processing_abort:
  assumes "stop_requested w \<or> user_stop env FinalCheck \<or> length (results w) < T"
  shows "post_processing wave env T w fs =
           \<lparr>final_files = fst (cleanup_temp_files (opsys env) (map snd (results w)) fs),
            signals = emitted w @ [log_message (RunMsg SynthesisAborted) WARNING] @
                      snd (cleanup_temp_files (opsys env) (map snd (results w)) fs) @
                      [synthesis_finished],
            stop_flag = (stop_requested w \<or> user_stop env FinalCheck)\<rparr>"
  using assms by (auto simp: post_processing_def Let_def split_def)

lemma post_processing_flag:
  "\<not> (stop_requested w \<or> user_stop env FinalCheck \<or> length (results w) < T) \<Longrightarrow>
   \<not> stop_flag (post_processing wave env T w fs)"
  by (simp add: post_processing_def Let_def split_def)

lemma post_processing_last:
  "last (signals (post_processing wave env T w fs)) = synthesis_finished"
  by (simp add: post_processing_def Let_def split_def)

text \<open>The run, cut into its phases.\<close>

lemma run_phases:
  obtains k w1 cs fs1 where
    "submit_loop env 0 (length chunks)
       \<lparr>results = [], stop_requested = False, chunks_processed = 0,
        emitted = [synthesis_started,
                   log_message (RunMsg (StartingSynthesis (length chunks))) INFO]\<rparr> = (k, w1)"
    "run_tasks env [i \<leftarrow> as_completed env. i < k] fs = (cs, fs1)"
    "run wave env chunks fs =
       post_processing wave env (length chunks) (drain env (length chunks) 0 cs w1) fs1"
proof -
  obtain k w1 where s: "submit_loop env 0 (length chunks)
       \<lparr>results = [], stop_requested = False, chunks_processed = 0,
        emitted = [synthesis_started,
                   log_message (RunMsg (StartingSynthesis (length chunks))) INFO]\<rparr> = (k, w1)"
    by fastforce
  obtain cs fs1 where t: "run_tasks env [i \<leftarrow> as_completed env. i < k] fs = (cs, fs1)"
    by fastforce
  have "run wave env chunks fs =
       post_processing wave env (length chunks) (drain env (length chunks) 0 cs w1) fs1"
    by (simp add: run_def Let_def s t)
  with s t that show ?thesis by blast
qed

lemma fetch_result_path:
  "fetch_result env i = Returned (Some p) \<Longrightarrow> p = TempPath (Suc i)"
  unfolding fetch_result_def using run_task_success by blast

lemma run_outcome:
  obtains w fs1 where
    "run wave env chunks fs = post_processing wave env (length chunks) w fs1"
    "fs1 FinalOutputPath = fs FinalOutputPath"
    "final_output_ready \<notin> set (emitted w)"
    "distinct (map fst (results w))"
    "\<forall>(i, p) \<in> set (results w). i < length chunks \<and> fetch_result env i = Returned (Some p)"
    "user_stop env FinalCheck \<or> (\<exists>i < length chunks. user_stop env (BeforeSubmit i)) \<or>
     (\<exists>j < length [i \<leftarrow> as_completed env. i < length chunks]. user_stop env (LoopTop j))
     \<longrightarrow> stop_requested w \<or> user_stop env FinalCheck"
proof -
  obtain k w1 cs fs1 where
    s: "submit_loop env 0 (length chunks)
       \<lparr>results = [], stop_requested = False, chunks_processed = 0,
        emitted = [synthesis_started,
                   log_message (RunMsg (StartingSynthesis (length chunks))) INFO]\<rparr> = (k, w1)"
    and t: "run_tasks env [i \<leftarrow> as_completed env. i < k] fs = (cs, fs1)"
    and r: "run wave env chunks fs =
       post_processing wave env (length chunks) (drain env (length chunks) 0 cs w1) fs1"
    by (rule run_phases [where wave = wave and env = env and chunks = chunks and fs = fs])
  define w where "w = drain env (length chunks) 0 cs w1"
  note S = submit_loop_spec [OF s]
  note R = run_tasks_spec [OF t]
  from S have k: "k \<le> length chunks" and res1: "results w1 = []"
    and nr1: "final_output_ready \<notin> set (emitted w1)" by simp_all
  have 1: "run wave env chunks fs = post_processing wave env (length chunks) w fs1"
    by (simp add: r w_def)
  have 2: "fs1 FinalOutputPath = fs FinalOutputPath" using R by simp
  have 3: "final_output_ready \<notin> set (emitted w)"
    unfolding w_def using nr1 by (rule drain_not_ready)
  have 4: "distinct (map fst (results w))"
    unfolding w_def by (rule drain_distinct) (simp add: res1)
  have 5: "\<forall>(i, p) \<in> set (results w). i < length chunks \<and> fetch_result env i = Returned (Some p)"
  proof (clarify)
    fix i p assume "(i, p) \<in> set (results w)"
    with drain_results [of env "length chunks" 0 cs w1] res1
    have m: "(i, Returned (Some p)) \<in> set cs" by (auto simp: w_def)
    then have "i \<in> set (map fst cs)" by force
    with R have "i < k" by simp
    moreover from m R have "Returned (Some p) = fetch_result env i" by auto
    ultimately show "i < length chunks \<and> fetch_result env i = Returned (Some p)"
      using k by simp
  qed
  have 6: "stop_requested w \<or> user_stop env FinalCheck"
    if "user_stop env FinalCheck \<or> (\<exists>i < length chunks. user_stop env (BeforeSubmit i)) \<or>
     (\<exists>j < length [i \<leftarrow> as_completed env. i < length chunks]. user_stop env (LoopTop j))"
  proof -
    from that consider "user_stop env FinalCheck"
      | i where "i < length chunks" "user_stop env (BeforeSubmit i)"
      | j where "j < length [i \<leftarrow> as_completed env. i < length chunks]" "user_stop env (LoopTop j)"
      by blast
    then show ?thesis
    proof cases
      case 1
      then show ?thesis by simp
    next
      case 2
      with S have "stop_requested w1" by auto
      then show ?thesis unfolding w_def by (simp add: drain_stop_mono)
    next
      case 3
      show ?thesis
      proof (cases "k < length chunks")
        case True
        with S have "stop_requested w1" by simp
        then show ?thesis unfolding w_def by (simp add: drain_stop_mono)
      next
        case False
        with k have "k = length chunks" by simp
        with R have "length cs = length [i \<leftarrow> as_completed env. i < length chunks]"
          by (metis length_map)
        with 3 have "j < length cs" "user_stop env (LoopTop (0 + j))" by simp_all
        then show ?thesis unfolding w_def by (simp add: drain_user_stop)
      qed
    qed
  qed
  from 6 have "user_stop env FinalCheck \<or> (\<exists>i < length chunks. user_stop env (BeforeSubmit i)) \<or>
     (\<exists>j < length [i \<leftarrow> as_completed env. i < length chunks]. user_stop env (LoopTop j))
     \<longrightarrow> stop_requested w \<or> user_stop env FinalCheck" by blast
  with 1 2 3 4 5 that show ?thesis by blast
qed

lemma run_tasks_other_files:
  "run_tasks env is fs = (cs, fs') \<Longrightarrow> \<forall>i \<in> set is. p \<noteq> TempPath (Suc i) \<Longrightarrow> fs' p = fs p"
proof (induction "is" arbitrary: fs cs fs')
  case Nil
  then show ?case by simp
next
  case (Cons i rest)
  obtain r fs1 where t: "run_task (opsys env) (task env i) i fs = (r, fs1)" by fastforce
  obtain rs fs2 where ts: "run_tasks env rest fs1 = (rs, fs2)" by fastforce
  from Cons.prems(1) t ts have fs': "fs' = fs2" by simp
  from Cons.prems(2) have "p \<noteq> TempPath (Suc i)" by simp
  with t have "fs1 p = fs p"
    using run_task_other_files [of p i "opsys env" "task env i" fs] by simp
  moreover from Cons.prems(2) have "fs2 p = fs1 p" by (intro Cons.IH [OF ts]) simp
  ultimately show ?case by (simp add: fs')
qed

lemma run_tasks_files:
  assumes "run_tasks env is fs = (cs, fs')"
    and "\<forall>i \<in> set is. task env i = Runs (e i) \<and> fetch_result env i = Returned (Some (TempPath (Suc i)))"
    and "i \<in> set is"
  shows "fs' (TempPath (Suc i)) = Some (response_bytes (e i)) \<and> response_bytes (e i) \<noteq> []"
  using assms
proof (induction "is" arbitrary: fs cs fs')
  case Nil
  then show ?case by simp
next
  case (Cons i0 rest)
  obtain r fs1 where t: "run_task (opsys env) (task env i0) i0 fs = (r, fs1)" by fastforce
  obtain rs fs2 where ts: "run_tasks env rest fs1 = (rs, fs2)" by fastforce
  from Cons.prems(1) t ts have fs': "fs' = fs2" by simp
  show ?case
  proof (cases "i \<in> set rest")
    case True
    with Cons.prems(2) Cons.IH [OF ts] show ?thesis by (simp add: fs')
  next
    case False
    with Cons.prems(3) have i: "i = i0" by simp
    from Cons.prems(2) have tk: "task env i0 = Runs (e i0)"
      and fr: "fetch_result env i0 = Returned (Some (TempPath (Suc i0)))" by simp_all
    from fr have "fst (run_task (opsys env) (task env i0) i0 fs) = Returned (Some (TempPath (Suc i0)))"
      using run_task_result_independent [of "opsys env" "task env i0" i0 fs Map.empty]
      by (simp add: fetch_result_def)
    from run_task_success [OF this] tk t
    have "fs1 = fs(TempPath (Suc i0) \<mapsto> response_bytes (e i0))" "response_bytes (e i0) \<noteq> []"
      by auto
    moreover from False have "fs2 (TempPath (Suc i0)) = fs1 (TempPath (Suc i0))"
      by (intro run_tasks_other_files [OF ts]) (auto simp: i)
    ultimately show ?thesis by (simp add: fs' i)
  qed
qed

lemma post_processing_combined:
  assumes "\<not> (stop_requested w \<or> user_stop env FinalCheck \<or> length (results w) < T)"
    and "\<not> (makedirs_needed (opsys env) \<and> makedirs_fails (opsys env))"
    and "combine_wav_files wave (opsys env) (ordered_temp_files (results w)) FinalOutputPath fs =
           (None, fs', log)"
  shows "final_files (post_processing wave env T w fs) =
           fst (cleanup_temp_files (opsys env) (ordered_temp_files (results w)) fs')
         \<and> final_output_ready \<in> set (signals (post_processing wave env T w fs))
         \<and> \<not> stop_flag (post_processing wave env T w fs)"
  using assms by (auto simp: post_processing_def Let_def split_def)

lemma run_success:
  assumes pos: "0 < length chunks"
    and all: "{..<length chunks} \<subseteq> set (as_completed env)"
    and nostop: "\<forall>p. \<not> user_stop env p"
    and ok: "\<forall>i < length chunks. task env i = Runs (e i) \<and>
               fetch_result env i = Returned (Some (TempPath (Suc i)))"
    and rd: "\<forall>i < length chunks. wave_read wave (response_bytes (e i)) = Some (seg i)"
    and op: "\<not> open_fails (opsys env) FinalOutputPath"
    and mk: "\<not> (makedirs_needed (opsys env) \<and> makedirs_fails (opsys env))"
  shows "final_files (run wave env chunks fs) FinalOutputPath =
           Some (wave_file wave (getparams (seg 0))
                  (concat (map (\<lambda>i. frames (seg i)) [0..<length chunks])))
         \<and> final_output_ready \<in> set (signals (run wave env chunks fs))
         \<and> \<not> stop_flag (run wave env chunks fs)"
proof -
  define T where "T = length chunks"
  define w0 where "w0 = \<lparr>results = [], stop_requested = False, chunks_processed = 0,
        emitted = [synthesis_started,
                   log_message (RunMsg (StartingSynthesis (length chunks))) INFO]\<rparr>"
  define order where "order = [i \<leftarrow> as_completed env. i < T]"
  have s: "submit_loop env 0 T w0 = (T, w0)"
    using submit_loop_no_stop [OF nostop, of w0 0 T] by (simp add: w0_def)
  obtain cs fs1 where t: "run_tasks env order fs = (cs, fs1)" by fastforce
  define w where "w = drain env T 0 cs w0"
  have r: "run wave env chunks fs = post_processing wave env T w fs1"
    using s t unfolding run_def w_def w0_def order_def T_def by (simp add: Let_def)
  have order: "set order = {..<T}" using all by (auto simp: order_def T_def)
  note R = run_tasks_spec [OF t]
  have cs: "\<forall>(i, r) \<in> set cs. r = Returned (Some (TempPath (Suc i)))"
  proof clarify
    fix i r assume m: "(i, r) \<in> set cs"
    then have "i \<in> set (map fst cs)" by force
    with R order have "i < T" by simp
    with ok have "fetch_result env i = Returned (Some (TempPath (Suc i)))" by (simp add: T_def)
    with m R show "r = Returned (Some (TempPath (Suc i)))" by auto
  qed
  have w0: "\<not> stop_requested w0" "results w0 = []" by (simp_all add: w0_def)
  note D = drain_all_success [OF nostop w0(1) cs, of T 0]
  have keys_cs: "fst ` set cs = {..<T}" using R order by (metis set_map)
  have lookup: "map_of (results w) k = (if k < T then Some (TempPath (Suc k)) else None)" for k
    using D [of k] keys_cs by (simp add: w_def w0)
  have nstop: "\<not> stop_requested w" using D by (simp add: w_def)
  have dist: "distinct (map fst (results w))"
    unfolding w_def by (rule drain_distinct) (simp add: w0)
  have keys: "fst ` set (results w) = {..<T}"
  proof -
    have "fst ` set (results w) = dom (map_of (results w))"
      by (simp add: dom_map_of_conv_image_fst)
    also have "\<dots> = {..<T}" using lookup by (auto simp: dom_def)
    finally show ?thesis .
  qed
  have len: "length (results w) = T"
    using distinct_card [OF dist] keys by simp
  have files: "ordered_temp_files (results w) = map (\<lambda>i. TempPath (Suc i)) [0..<T]"
    by (rule ordered_temp_files_all [OF dist keys]) (simp add: lookup)
  have content: "fs1 (TempPath (Suc i)) = Some (response_bytes (e i)) \<and> response_bytes (e i) \<noteq> []"
    if "i < T" for i
  proof (rule run_tasks_files [OF t])
    show "\<forall>i \<in> set order. task env i = Runs (e i) \<and>
            fetch_result env i = Returned (Some (TempPath (Suc i)))"
      using ok order by (simp add: T_def)
    show "i \<in> set order" using that order by simp
  qed
  define wav_at where "wav_at p = (case p of TempPath n \<Rightarrow> seg (n - 1) | FinalOutputPath \<Rightarrow> seg 0)" for p
  define inputs where "inputs = map (\<lambda>i. TempPath (Suc i)) [0..<T]"
  from pos have upt: "[0..<T] = 0 # [1..<T]" by (simp add: T_def upt_conv_Cons)
  have valid: "valid_input_files fs1 inputs = TempPath 1 # map (\<lambda>i. TempPath (Suc i)) [1..<T]"
  proof -
    have "\<forall>p \<in> set inputs. exists_nonempty fs1 p"
      using content by (auto simp: inputs_def exists_nonempty_def)
    then have "valid_input_files fs1 inputs = inputs" by (simp add: valid_input_files_def)
    then show ?thesis by (simp add: inputs_def upt)
  qed
  have out: "FinalOutputPath \<notin> set inputs" by (auto simp: inputs_def)
  have readable: "\<forall>f \<in> set (TempPath 1 # map (\<lambda>i. TempPath (Suc i)) [1..<T]).
                    \<exists>b. fs1 f = Some b \<and> wave_read wave b = Some (wav_at f)"
  proof
    fix f assume "f \<in> set (TempPath 1 # map (\<lambda>i. TempPath (Suc i)) [1..<T])"
    then have "f \<in> set inputs" by (simp add: inputs_def upt)
    then obtain i where i: "i < T" "f = TempPath (Suc i)" by (auto simp: inputs_def)
    with content rd show "\<exists>b. fs1 f = Some b \<and> wave_read wave b = Some (wav_at f)"
      by (simp add: wav_at_def T_def)
  qed
  note C = combine_readable [OF valid out readable op]
  have frames: "concat (map (\<lambda>f. frames (wav_at f)) (TempPath 1 # map (\<lambda>i. TempPath (Suc i)) [1..<T]))
                = concat (map (\<lambda>i. frames (seg i)) [0..<T])"
  proof -
    have "TempPath 1 # map (\<lambda>i. TempPath (Suc i)) [1..<T] = inputs" by (simp add: inputs_def upt)
    then show ?thesis by (simp add: inputs_def wav_at_def o_def)
  qed
  have first: "wav_at (TempPath 1) = seg 0" by (simp add: wav_at_def)
  from C have C': "combine_wav_files wave (opsys env) (ordered_temp_files (results w))
           FinalOutputPath fs1 =
         (None,
          fs1(FinalOutputPath \<mapsto> wave_file wave (getparams (seg 0))
                (concat (map (\<lambda>i. frames (seg i)) [0..<T]))),
          log_message (FileMsg (CombiningValidChunks
              (length (TempPath 1 # map (\<lambda>i. TempPath (Suc i)) [1..<T])))) INFO #
          [log_message (FileMsg (ParametersMismatch f)) WARNING.
             f \<leftarrow> TempPath 1 # map (\<lambda>i. TempPath (Suc i)) [1..<T],
             getparams (wav_at f) \<noteq> getparams (wav_at (TempPath 1))])"
    unfolding files inputs_def [symmetric] frames first .
  have na: "\<not> (stop_requested w \<or> user_stop env FinalCheck \<or> length (results w) < T)"
    using nstop nostop len by simp
  note P = post_processing_combined [OF na mk C']
  have "FinalOutputPath \<notin> set (ordered_temp_files (results w))"
    unfolding files by auto
  from cleanup_other [OF this] P show ?thesis
    unfolding r by (simp add: T_def)
qed

text \<open>The scenarios meet the conditions of the lemmas above.\<close>

lemma download_fetch_ok:
  "download (fetch_ok bs) n i blocks written log =
     (Completed, written @ concat blocks, i + length blocks, log)"
  by (induction blocks arbitrary: i written)
     (simp_all add: fetch_ok_def stop_visible_def)

lemma fetch_ok_result:
  "concat blocks \<noteq> [] \<Longrightarrow> \<not> open_fails os p \<Longrightarrow>
   fst (synthesize_chunk os (fetch_ok blocks) n p fs) = Some p"
  using download_fetch_ok [of blocks n 0 blocks "[]"]
  by (simp add: synthesize_chunk_def save_audio_def Let_def stop_visible_def fetch_ok_def)

lemma scenario_a_ok:
  "\<forall>i < length scenario_chunks.
     task scenario_a i = Runs (fetch_ok (scenario_blocks i)) \<and>
     fetch_result scenario_a i = Returned (Some (TempPath (Suc i)))"
proof -
  have "concat (scenario_blocks i) \<noteq> []" for i by (simp add: scenario_blocks_def)
  then have "fst (synthesize_chunk no_failures (fetch_ok (scenario_blocks i)) (Suc i)
               (TempPath (Suc i)) Map.empty) = Some (TempPath (Suc i))" for i
    by (intro fetch_ok_result) (simp_all add: no_failures_def)
  then show ?thesis
    by (simp add: fetch_result_def scenario_a_def split_def Let_def)
qed

lemma scenario_a_readable:
  "\<forall>i < length scenario_chunks.
     wave_read example_wave (response_bytes (fetch_ok (scenario_blocks i))) = Some (scenario_segment i)"
  by (simp add: example_wave_def example_read_def response_bytes_def fetch_ok_def
        scenario_blocks_def scenario_segment_def)

lemma scenario_a_order: "{..<length scenario_chunks} \<subseteq> set (as_completed scenario_a)"
  by (auto simp: scenario_chunks_def scenario_a_def)

lemma scenario_a_succeeds:
  "final_files (run example_wave scenario_a scenario_chunks fs) FinalOutputPath =
     Some [82, 1, 2, 3, 4, 5, 6]
   \<and> final_output_ready \<in> set (signals (run example_wave scenario_a scenario_chunks fs))"
proof -
  have h1: "0 < length scenario_chunks" by (simp add: scenario_chunks_def)
  have h3: "\<forall>p. \<not> user_stop scenario_a p" by (simp add: scenario_a_def)
  have h6: "\<not> open_fails (opsys scenario_a) FinalOutputPath"
    by (simp add: scenario_a_def no_failures_def)
  have h7: "\<not> (makedirs_needed (opsys scenario_a) \<and> makedirs_fails (opsys scenario_a))"
    by (simp add: scenario_a_def no_failures_def)
  have "[0..<length scenario_chunks] = [0, 1, 2]"
    by (simp add: scenario_chunks_def upt_rec)
  with run_success [OF h1 scenario_a_order h3 scenario_a_ok scenario_a_readable h6 h7, of fs]
  show ?thesis
    by (simp add: example_wave_def scenario_segment_def example_params_def)
qed

text \<open>
  Claim C1.  The output file is written, or \<open>final_output_ready\<close> emitted, only if the
  call of every chunk returned its temporary file, and then the stop flag is not set.
  If the call of some chunk did not, or the stop flag is set when \<open>run\<close> ends, or \<open>stop()\<close>
  has set it at a read of the submit loop, at the top of an iteration of the result loop or
  at the check after the pool, then the output file is as before the run,
  \<open>final_output_ready\<close> is not emitted, and \<open>run\<close> logs that the synthesis was aborted,
  cleans up and ends with \<open>synthesis_finished\<close>.
\<close>

theorem run_all_or_nothing:
  "((final_files (run wave env chunks fs) FinalOutputPath \<noteq> fs FinalOutputPath \<or>
     final_output_ready \<in> set (signals (run wave env chunks fs)))
      \<longrightarrow> (\<forall>i < length chunks. fetch_result env i = Returned (Some (TempPath (Suc i)))) \<and>
          \<not> stop_flag (run wave env chunks fs))
   \<and> (((\<exists>i < length chunks. fetch_result env i \<noteq> Returned (Some (TempPath (Suc i)))) \<or>
        stop_flag (run wave env chunks fs) \<or> user_stop env FinalCheck \<or>
        (\<exists>i < length chunks. user_stop env (BeforeSubmit i)) \<or>
        (\<exists>j < length [i \<leftarrow> as_completed env. i < length chunks]. user_stop env (LoopTop j)))
      \<longrightarrow> final_files (run wave env chunks fs) FinalOutputPath = fs FinalOutputPath \<and>
          final_output_ready \<notin> set (signals (run wave env chunks fs)) \<and>
          log_message (RunMsg SynthesisAborted) WARNING \<in> set (signals (run wave env chunks fs)) \<and>
          last (signals (run wave env chunks fs)) = synthesis_finished)"
proof -
  obtain w fs1 where
    r: "run wave env chunks fs = post_processing wave env (length chunks) w fs1"
    and fin: "fs1 FinalOutputPath = fs FinalOutputPath"
    and nr: "final_output_ready \<notin> set (emitted w)"
    and dist: "distinct (map fst (results w))"
    and res: "\<forall>(i, p) \<in> set (results w). i < length chunks \<and> fetch_result env i = Returned (Some p)"
    and us: "user_stop env FinalCheck \<or> (\<exists>i < length chunks. user_stop env (BeforeSubmit i)) \<or>
     (\<exists>j < length [i \<leftarrow> as_completed env. i < length chunks]. user_stop env (LoopTop j))
     \<longrightarrow> stop_requested w \<or> user_stop env FinalCheck"
    by (rule run_outcome [where wave = wave and env = env and chunks = chunks and fs = fs])
  define abort where
    "abort \<longleftrightarrow> stop_requested w \<or> user_stop env FinalCheck \<or> length (results w) < length chunks"
  have temp: "FinalOutputPath \<notin> set (map snd (results w))"
  proof
    assume "FinalOutputPath \<in> set (map snd (results w))"
    then obtain i where "(i, FinalOutputPath) \<in> set (results w)" by auto
    with res have "fetch_result env i = Returned (Some FinalOutputPath)" by auto
    then show False using fetch_result_path by blast
  qed
  have aborted: "final_files (run wave env chunks fs) FinalOutputPath = fs FinalOutputPath \<and>
          final_output_ready \<notin> set (signals (run wave env chunks fs)) \<and>
          log_message (RunMsg SynthesisAborted) WARNING \<in> set (signals (run wave env chunks fs)) \<and>
          last (signals (run wave env chunks fs)) = synthesis_finished" if abort
  proof -
    from that have "stop_requested w \<or> user_stop env FinalCheck \<or> length (results w) < length chunks"
      by (simp add: abort_def)
    note A = post_processing_abort [OF this, of wave fs1]
    show ?thesis
      unfolding r A using cleanup_other [OF temp, of "opsys env" fs1] cleanup_log nr fin
      by simp
  qed
  have complete: "(\<forall>i < length chunks. fetch_result env i = Returned (Some (TempPath (Suc i)))) \<and>
          \<not> stop_flag (run wave env chunks fs)" if "\<not> abort"
  proof -
    from that have na: "\<not> (stop_requested w \<or> user_stop env FinalCheck \<or>
        length (results w) < length chunks)" by (simp add: abort_def)
    then have len: "length chunks \<le> length (results w)" by simp
    from res have "fst ` set (results w) \<subseteq> {..<length chunks}" by auto
    from all_keys [OF dist this len] have keys: "fst ` set (results w) = {..<length chunks}" .
    have "fetch_result env i = Returned (Some (TempPath (Suc i)))" if "i < length chunks" for i
    proof -
      from that keys have "i \<in> fst ` set (results w)" by simp
      then obtain p where "(i, p) \<in> set (results w)" by auto
      with res have "fetch_result env i = Returned (Some p)" by auto
      with fetch_result_path show ?thesis by blast
    qed
    with post_processing_flag [OF na] show ?thesis by (simp add: r)
  qed
  have flag: "abort" if "stop_flag (run wave env chunks fs)"
    using that post_processing_flag [of w env "length chunks" wave fs1]
    unfolding r abort_def by blast
  show ?thesis
  proof (cases abort)
    case True
    with aborted show ?thesis by blast
  next
    case False
    with us flag have "\<not> (stop_flag (run wave env chunks fs) \<or> user_stop env FinalCheck \<or>
        (\<exists>i < length chunks. user_stop env (BeforeSubmit i)) \<or>
        (\<exists>j < length [i \<leftarrow> as_completed env. i < length chunks]. user_stop env (LoopTop j)))"
      unfolding abort_def by blast
    with complete [OF False] show ?thesis by blast
  qed
qed

theorem run_all_or_nothing_witness:
  "final_output_ready \<in> set (signals (run example_wave scenario_a scenario_chunks Map.empty))
   \<and> length scenario_chunks = 3
   \<and> fetch_result scenario_a 0 = Returned (Some (TempPath 1))
   \<and> fetch_result scenario_a 1 = Returned (Some (TempPath 2))
   \<and> fetch_result scenario_a 2 = Returned (Some (TempPath 3))
   \<and> \<not> stop_flag (run example_wave scenario_a scenario_chunks Map.empty)
   \<and> fetch_result scenario_b 1 \<noteq> Returned (Some (TempPath (Suc 1)))
   \<and> final_files (run example_wave scenario_b scenario_chunks Map.empty) FinalOutputPath = None
   \<and> final_output_ready \<notin> set (signals (run example_wave scenario_b scenario_chunks Map.empty))
   \<and> log_message (RunMsg SynthesisAborted) WARNING
       \<in> set (signals (run example_wave scenario_b scenario_chunks Map.empty))
   \<and> last (signals (run example_wave scenario_b scenario_chunks Map.empty)) = synthesis_finished"
proof -
  have a: "final_output_ready \<in> set (signals (run example_wave scenario_a scenario_chunks Map.empty))"
    using scenario_a_succeeds by blast
  have b: "fetch_result scenario_b 1 \<noteq> Returned (Some (TempPath (Suc 1)))"
    by (simp add: fetch_result_def scenario_b_def synthesize_chunk_def fetch_status_def
          stop_visible_def)
  have l: "(1::nat) < length scenario_chunks" by (simp add: scenario_chunks_def)
  from a run_all_or_nothing [of example_wave scenario_a scenario_chunks Map.empty]
  have "(\<forall>i < length scenario_chunks. fetch_result scenario_a i = Returned (Some (TempPath (Suc i))))
        \<and> \<not> stop_flag (run example_wave scenario_a scenario_chunks Map.empty)"
    by blast
  moreover from b l run_all_or_nothing [of example_wave scenario_b scenario_chunks Map.empty]
  have "final_files (run example_wave scenario_b scenario_chunks Map.empty) FinalOutputPath =
          Map.empty FinalOutputPath
   \<and> final_output_ready \<notin> set (signals (run example_wave scenario_b scenario_chunks Map.empty))
   \<and> log_message (RunMsg SynthesisAborted) WARNING
       \<in> set (signals (run example_wave scenario_b scenario_chunks Map.empty))
   \<and> last (signals (run example_wave scenario_b scenario_chunks Map.empty)) = synthesis_finished"
    by blast
  moreover have "length scenario_chunks = 3" by (simp add: scenario_chunks_def)
  ultimately show ?thesis using a b by (simp add: numeral_3_eq_3)
qed

text \<open>
  Claim C2.  In a run of at least one chunk where every future completes, \<open>stop()\<close> is not
  called, the call of every chunk returns its temporary file, every segment is readable by
  the \<open>wave\<close> module and the output file can be written, the output file holds the frames
  of the segments of chunks 1 to N in this order, under the parameters of the first
  segment.  The order of completion \<open>as_completed env\<close> does not occur in the result.
\<close>

theorem run_output_in_chunk_order:
  assumes "0 < length chunks"
    and "{..<length chunks} \<subseteq> set (as_completed env)"
    and "\<forall>p. \<not> user_stop env p"
    and "\<forall>i < length chunks. task env i = Runs (e i) \<and>
           fetch_result env i = Returned (Some (TempPath (Suc i)))"
    and "\<forall>i < length chunks. wave_read wave (response_bytes (e i)) = Some (seg i)"
    and "\<not> open_fails (opsys env) FinalOutputPath"
    and "\<not> (makedirs_needed (opsys env) \<and> makedirs_fails (opsys env))"
  shows "final_files (run wave env chunks fs) FinalOutputPath =
           Some (wave_file wave (getparams (seg 0))
                  (concat (map (\<lambda>i. frames (seg i)) [0..<length chunks])))
         \<and> final_output_ready \<in> set (signals (run wave env chunks fs))"
  using run_success [OF assms] by blast

theorem run_output_in_chunk_order_witness:
  "as_completed scenario_a = [2, 0, 1]
   \<and> map (\<lambda>i. frames (scenario_segment i)) [0..<length scenario_chunks] = [[1, 2], [3, 4], [5, 6]]
   \<and> final_files (run example_wave scenario_a scenario_chunks Map.empty) FinalOutputPath =
       Some [82, 1, 2, 3, 4, 5, 6]
   \<and> final_output_ready \<in> set (signals (run example_wave scenario_a scenario_chunks Map.empty))"
proof -
  have h1: "0 < length scenario_chunks" by (simp add: scenario_chunks_def)
  have h3: "\<forall>p. \<not> user_stop scenario_a p" by (simp add: scenario_a_def)
  have h6: "\<not> open_fails (opsys scenario_a) FinalOutputPath"
    by (simp add: scenario_a_def no_failures_def)
  have h7: "\<not> (makedirs_needed (opsys scenario_a) \<and> makedirs_fails (opsys scenario_a))"
    by (simp add: scenario_a_def no_failures_def)
  have u: "[0..<length scenario_chunks] = [0, 1, 2]"
    by (simp add: scenario_chunks_def upt_rec)
  from u run_output_in_chunk_order
         [OF h1 scenario_a_order h3 scenario_a_ok scenario_a_readable h6 h7, of Map.empty]
  show ?thesis
    by (simp add: example_wave_def scenario_segment_def example_params_def scenario_a_def)
qed

text \<open>
  The janitor deletes every listed file whose removal does not fail; a removal that fails
  does not keep it from the files after it.
\<close>

lemma remove_each_deletes:
  "(p \<in> set files \<or> fs p = None) \<Longrightarrow> \<not> remove_fails os p \<Longrightarrow>
   fst (remove_each os files fs log n) p = None"
  by (induction os files fs log n rule: remove_each.induct) auto

lemma cleanup_deletes:
  "p \<in> set files \<Longrightarrow> \<not> remove_fails os p \<Longrightarrow> fst (cleanup_temp_files os files fs) p = None"
  using remove_each_deletes [of p files fs os]
  by (auto simp: cleanup_temp_files_def split_def Let_def)

text \<open>
  Claim C3 fails: \<open>run\<close> cleans up the files recorded in \<open>results\<close> only.  In scenario B the
  calls of chunks 1 and 3 have written their files and returned them, the future of
  chunk 2 (status 500) is the first one yielded, and the result loop breaks there: the
  files of chunks 1 and 3 are never recorded and are still on disk when \<open>run\<close> has ended.
\<close>

theorem temp_files_left_behind:
  "fetch_result scenario_b 0 = Returned (Some (TempPath 1))
   \<and> fetch_result scenario_b 1 = Returned None
   \<and> fetch_result scenario_b 2 = Returned (Some (TempPath 3))
   \<and> final_files (run example_wave scenario_b scenario_chunks Map.empty) (TempPath 1) = Some [82, 1, 2]
   \<and> final_files (run example_wave scenario_b scenario_chunks Map.empty) (TempPath 3) = Some [82, 5, 6]
   \<and> final_files (run example_wave scenario_b scenario_chunks Map.empty) FinalOutputPath = None
   \<and> last (signals (run example_wave scenario_b scenario_chunks Map.empty)) = synthesis_finished"
  by code_simp

section \<open>Properties of the server\<close>

text \<open>
  A request that is not JSON for Flask, and a JSON object without a true \<open>text\<close> member,
  are answered with status 400 and an error body, and Piper is not started.
\<close>

lemma synthesize_rejects:
  "\<not> is_json req \<Longrightarrow>
     synthesize piper req =
       \<lparr>outcome = HttpResponse 400 (JsonError RequestMustBeJson), popen_calls = 0\<rparr>"
  "is_json req \<Longrightarrow> json_body req = Some (JObject kvs) \<Longrightarrow>
   \<not> truthy (dict_get kvs (str ''text'')) \<Longrightarrow>
     synthesize piper req =
       \<lparr>outcome = HttpResponse 400 (JsonError MissingText), popen_calls = 0\<rparr>"
  by (simp_all add: synthesize_def)

text \<open>
  Claim C10 fails for a JSON payload that is no object: \<open>data.get\<close> raises AttributeError
  outside every \<open>try\<close> block, so the handler returns no 400 response.  Likewise a body
  that is not JSON under a JSON Content-Type makes \<open>request.get_json()\<close> raise BadRequest
  before the handler can build its error body.  Piper is not started in either case.
\<close>

theorem synthesize_non_object_payload:
  "synthesize piper \<lparr>is_json = True, json_body = Some (JArray [])\<rparr> =
     \<lparr>outcome = Unhandled AttributeError, popen_calls = 0\<rparr>
   \<and> synthesize piper \<lparr>is_json = True, json_body = Some JNull\<rparr> =
     \<lparr>outcome = Unhandled AttributeError, popen_calls = 0\<rparr>
   \<and> synthesize piper \<lparr>is_json = True, json_body = None\<rparr> =
     \<lparr>outcome = Unhandled BadRequest, popen_calls = 0\<rparr>"
  by (simp add: synthesize_def)

end
